theory Spec2Isabelle
  imports Complex_Main
begin

section \<open>Conventions of the embedding\<close>

text \<open>
  The development follows \<^verbatim>\<open>src/utils.py\<close> and \<^verbatim>\<open>src/api.py\<close>.

  \<^item> A segment (TAD) and a noisy stripe are pairs of integers \<open>(bgn, end)\<close>, the rows of the
    two-column integer arrays of the source.
  \<^item> \<open>filters[ch]\<close> is passed as the list of its rows, in the array's order.
  \<^item> The segmentation methods are the strings the source compares against.
  \<^item> Python exceptions are values of the datatype \<open>error\<close>; a \<^verbatim>\<open>try/except Exception\<close> of
    the source is a case distinction on them.
  \<^item> The integers of numpy arrays are 64-bit. The model wraps, with \<open>wrap64\<close>, the
    expanded bounds of \<^verbatim>\<open>whether_tad_noisy\<close>, the lengths of segments and of TADs, and
    the sums \<open>np.sum\<close> takes. The gaps and the length inside \<^verbatim>\<open>calc_noisy_metric\<close>
    and the coordinates \<^verbatim>\<open>get_noisy_stripes\<close> scales by the resolution are taken
    exactly.
  \<^item> A finite float64 number is the real number it denotes. In the threshold of
    \<^verbatim>\<open>produce_tads_segmentation\<close>, in \<^verbatim>\<open>calc_mean_tad_size\<close> and in
    \<^verbatim>\<open>find_global_optima\<close> the sum, difference, product and quotient of two floats, and
    the conversion of an integer, are the exact result rounded by \<open>fl64\<close> (to the
    nearest number with a significand of 53 bits, ties to the even one), as IEEE 754
    prescribes; the exponent range is not bounded, so overflow to \<open>inf\<close> and gradual
    underflow are left out. In \<^verbatim>\<open>get_noisy_stripes\<close> the quotients by the resolution
    are those of its multiples, taken exactly, and \<^verbatim>\<open>adjust_boundaries\<close> counts grid
    values in integer units.
  \<^item> \<open>np.log\<close> is not correctly rounded and depends on the platform: in
    \<^verbatim>\<open>calc_noisy_metric\<close> it is idealised as \<open>ln\<close>, with exact products, and the
    statements that depend on the value of a logarithm take it of positive integers only.
    The statements on the thresholds of \<^verbatim>\<open>produce_tads_segmentation\<close> hold for every
    value the metric may take.
  \<^item> \<open>nan\<close> is modelled explicitly in \<^verbatim>\<open>find_global_optima\<close>, where the source produces
    it from an empty segmentation.
  \<^item> The external optimiser (\<^verbatim>\<open>lavaburst\<close>) and boundary caller (\<^verbatim>\<open>cooltools\<close>) are
    parameters: the functions below take their output.
\<close>

datatype error = IndexError | ValueError | TypeError | ZeroDivisionError

type_synonym segment = "int \<times> int"
type_synonym stripe = "int \<times> int"

section \<open>Machine numbers\<close>

text \<open>
  \<open>wrap64\<close>: the value of a 64-bit two's complement integer operation whose exact result
  is \<open>v\<close>. \<open>in_int64\<close>: the exact result is representable, and the operation does not
  overflow.
\<close>

definition wrap64 :: "int \<Rightarrow> int" where
  "wrap64 v = (v + 2 ^ 63) mod 2 ^ 64 - 2 ^ 63"

definition in_int64 :: "int \<Rightarrow> bool" where
  "in_int64 v = (- (2 ^ 63) \<le> v \<and> v < 2 ^ 63)"

text \<open>
  Rounding to the nearest integer, ties to the even one, and with it the rounding of a real
  number to float64: \<open>u\<close> is the unit in the last place of \<open>x\<close>, the power of two for
  which \<open>x / u\<close> has a 53-bit integer part.
\<close>

definition round_half_even :: "real \<Rightarrow> int" where
  "round_half_even y =
     (let f = \<lfloor>y\<rfloor>; d = y - real_of_int f
      in if d < 1 / 2 then f else if d > 1 / 2 then f + 1 else if even f then f else f + 1)"

definition fl64 :: "real \<Rightarrow> real" where
  "fl64 x =
     (if x = 0 then 0
      else (let u = 2 powr real_of_int (\<lfloor>log 2 \<bar>x\<bar>\<rfloor> - 52)
            in u * real_of_int (round_half_even (x / u))))"

section \<open>NoiseFilter: \<^verbatim>\<open>whether_tad_noisy\<close> and \<^verbatim>\<open>calc_noisy_metric\<close>\<close>

text \<open>
  \<^verbatim>\<open>whether_tad_noisy\<close>: the loop over the stripes with its four early returns, in the
  order of the source. \<open>bgn_f\<close> and \<open>end_f\<close> are 64-bit integers of the array
  \<open>filters[ch]\<close>, \<open>resolution\<close> and \<open>k\<close> are Python integers: the product
  \<open>resolution * k\<close> is exact, the difference and the sum with it wrap (for a product
  within the 64-bit range; beyond it, what numpy does depends on its version). The last
  test compares the difference \<open>end_f_new - bgn_f_new\<close> with 0 only, and the difference of
  two 64-bit integers wraps to 0 only when they are equal (lemma \<open>wrap64_diff_zero\<close>).
\<close>

fun whether_tad_noisy :: "segment \<Rightarrow> stripe list \<Rightarrow> string \<Rightarrow> int \<Rightarrow> int \<Rightarrow> bool" where
  "whether_tad_noisy x [] method resolution k = False"
| "whether_tad_noisy x ((bgn_f, end_f) # fs) method resolution k =
     (let bgn_f_new = (if method = ''insulation'' then wrap64 (bgn_f - resolution * k) else bgn_f);
          end_f_new = (if method = ''insulation'' then wrap64 (end_f + resolution * k) else end_f)
      in if fst x \<le> end_f_new \<and> fst x \<ge> bgn_f_new then True
         else if snd x \<le> end_f_new \<and> snd x \<ge> bgn_f_new then True
         else if snd x \<le> end_f_new \<and> fst x \<ge> bgn_f_new then True
         else if fst x \<le> bgn_f_new \<and> snd x \<ge> end_f_new \<and> end_f_new - bgn_f_new \<noteq> 0 then True
         else whether_tad_noisy x fs method resolution k)"

text \<open>\<open>np.argmin\<close> on a non-empty list: the first index of the minimum.\<close>

fun np_argmin :: "'a::linorder list \<Rightarrow> nat" where
  "np_argmin [] = 0"
| "np_argmin [x] = 0"
| "np_argmin (x # y # ys) =
     (let j = np_argmin (y # ys) in if x \<le> (y # ys) ! j then 0 else Suc j)"

text \<open>\<open>np.where(a == v)[0][0]\<close>: the first index holding \<open>v\<close>, \<open>None\<close> for the IndexError.\<close>

fun first_index :: "'a list \<Rightarrow> 'a \<Rightarrow> nat option" where
  "first_index [] v = None"
| "first_index (a # as) v =
     (if a = v then Some 0 else map_option Suc (first_index as v))"

text \<open>
  The two stripe lookups of \<^verbatim>\<open>calc_noisy_metric\<close>. \<open>None\<close> is the empty array the
  \<^verbatim>\<open>except\<close> branch assigns. For the left stripe the source takes the \<open>argmin\<close> over the
  masked column of ends and uses it as an index into the unmasked column.
\<close>

definition left_stripe :: "segment \<Rightarrow> stripe list \<Rightarrow> stripe option" where
  "left_stripe x fs =
     (let ends = map snd fs;
          masked = filter (\<lambda>e. fst x - e \<ge> 0) ends
      in if masked = [] then None
         else (let j = np_argmin (map (\<lambda>e. fst x - e) masked)
               in case first_index ends (ends ! j) of
                    None \<Rightarrow> None
                  | Some i \<Rightarrow> Some (fs ! i)))"

definition right_stripe :: "segment \<Rightarrow> stripe list \<Rightarrow> stripe option" where
  "right_stripe x fs =
     (case filter (\<lambda>s. s - snd x \<ge> 0) (map fst fs) of
        [] \<Rightarrow> None
      | v # _ \<Rightarrow> (case filter (\<lambda>f. fst f = v) fs of [] \<Rightarrow> None | r # _ \<Rightarrow> Some r))"

definition left_side_metric :: "segment \<Rightarrow> stripe option \<Rightarrow> string \<Rightarrow> real" where
  "left_side_metric x ls method =
     (case ls of
        Some l \<Rightarrow>
          (if method = ''insulation'' then (ln (real_of_int (fst x - snd l)))\<^sup>2
           else (ln (real_of_int (fst x - snd l)))\<^sup>2 * ln (real_of_int (snd x - fst x)))
      | None \<Rightarrow> 10000000000)"

definition right_side_metric :: "segment \<Rightarrow> stripe option \<Rightarrow> string \<Rightarrow> real" where
  "right_side_metric x rs method =
     (case rs of
        Some r \<Rightarrow>
          (if method = ''insulation'' then (ln (real_of_int (fst r - snd x)))\<^sup>2
           else (ln (real_of_int (fst r - snd x)))\<^sup>2 * ln (real_of_int (snd x - fst x)))
      | None \<Rightarrow> 10000000000)"

definition calc_noisy_metric :: "segment \<Rightarrow> stripe list \<Rightarrow> string \<Rightarrow> int \<Rightarrow> int \<Rightarrow> real" where
  "calc_noisy_metric x fs method resolution k =
     (if whether_tad_noisy x fs method resolution k then - 1
      else if method \<noteq> ''insulation'' then
        min (left_side_metric x (left_stripe x fs) method)
            (right_side_metric x (right_stripe x fs) method)
      else 1)"


text \<open>
  The reading of the hard-reject rule in the words of the specification: a stripe, expanded
  by \<open>k * resolution\<close> on both sides for the insulation method only, covers an endpoint of
  the segment (closed comparison, as in the source), or lies inside the segment and has a
  width different from zero. \<open>expanded\<close> is the expansion in exact arithmetic,
  \<open>expanded64\<close> the one the source computes, and \<open>no_overflow\<close> says that the two
  agree on every stripe. \<open>stripe_test\<close> is the body of the loop of
  \<^verbatim>\<open>whether_tad_noisy\<close> for one (expanded) stripe.
\<close>

definition expanded :: "stripe \<Rightarrow> string \<Rightarrow> int \<Rightarrow> int \<Rightarrow> stripe" where
  "expanded f method resolution k =
     (if method = ''insulation'' then (fst f - resolution * k, snd f + resolution * k) else f)"

definition expanded64 :: "stripe \<Rightarrow> string \<Rightarrow> int \<Rightarrow> int \<Rightarrow> stripe" where
  "expanded64 f method resolution k =
     (if method = ''insulation''
      then (wrap64 (fst f - resolution * k), wrap64 (snd f + resolution * k)) else f)"

definition no_overflow :: "stripe list \<Rightarrow> string \<Rightarrow> int \<Rightarrow> int \<Rightarrow> bool" where
  "no_overflow fs method resolution k =
     (method = ''insulation'' \<longrightarrow>
        in_int64 (resolution * k)
        \<and> (\<forall>f \<in> set fs. in_int64 (fst f - resolution * k) \<and> in_int64 (snd f + resolution * k)))"

definition covers_endpoint :: "stripe \<Rightarrow> segment \<Rightarrow> bool" where
  "covers_endpoint g x =
     ((fst g \<le> fst x \<and> fst x \<le> snd g) \<or> (fst g \<le> snd x \<and> snd x \<le> snd g))"

definition inside_with_width :: "stripe \<Rightarrow> segment \<Rightarrow> bool" where
  "inside_with_width g x = (fst x \<le> fst g \<and> snd g \<le> snd x \<and> snd g - fst g \<noteq> 0)"

definition stripe_test :: "segment \<Rightarrow> stripe \<Rightarrow> bool" where
  "stripe_test x g =
     ((fst x \<le> snd g \<and> fst x \<ge> fst g) \<or> (snd x \<le> snd g \<and> snd x \<ge> fst g)
      \<or> (snd x \<le> snd g \<and> fst x \<ge> fst g)
      \<or> (fst x \<le> fst g \<and> snd x \<ge> snd g \<and> snd g - fst g \<noteq> 0))"


text \<open>
  The reading of the density-score metric in the words of the specification: the nearest
  stripe ending at or before the start of the segment, the nearest stripe starting at or
  after its end, the sentinel \<open>1e10\<close> for a missing side.
\<close>

definition ends_before :: "segment \<Rightarrow> stripe list \<Rightarrow> int list" where
  "ends_before x fs = filter (\<lambda>e. e \<le> fst x) (map snd fs)"

definition starts_after :: "segment \<Rightarrow> stripe list \<Rightarrow> int list" where
  "starts_after x fs = filter (\<lambda>s. snd x \<le> s) (map fst fs)"

definition nearest_left_metric :: "segment \<Rightarrow> stripe list \<Rightarrow> real" where
  "nearest_left_metric x fs =
     (if ends_before x fs = [] then 10000000000
      else (ln (real_of_int (fst x - Max (set (ends_before x fs)))))\<^sup>2
           * ln (real_of_int (snd x - fst x)))"

definition nearest_right_metric :: "segment \<Rightarrow> stripe list \<Rightarrow> real" where
  "nearest_right_metric x fs =
     (if starts_after x fs = [] then 10000000000
      else (ln (real_of_int (Min (set (starts_after x fs)) - snd x)))\<^sup>2
           * ln (real_of_int (snd x - fst x)))"


section \<open>SegmentationGenerator: \<^verbatim>\<open>produce_tads_segmentation\<close>, \<^verbatim>\<open>produce_boundaries_segmentation\<close>\<close>

text \<open>Python's \<open>int()\<close> on a float truncates towards zero.\<close>

definition py_int :: "real \<Rightarrow> int" where
  "py_int r = (if r \<ge> 0 then \<lfloor>r\<rfloor> else \<lceil>r\<rceil>)"

text \<open>The slice \<open>a[:j]\<close> and the index \<open>a[j]\<close> of numpy, negative \<open>j\<close> counting from the end;
  \<open>None\<close> is the IndexError.\<close>

definition py_slice_to :: "'a list \<Rightarrow> int \<Rightarrow> 'a list" where
  "py_slice_to xs j = (if j \<ge> 0 then take (nat j) xs else take (length xs - nat (- j)) xs)"

definition np_index :: "'a list \<Rightarrow> int \<Rightarrow> 'a option" where
  "np_index xs j =
     (let n = int (length xs)
      in if 0 \<le> j \<and> j < n then Some (xs ! nat j)
         else if - n \<le> j \<and> j < 0 then Some (xs ! nat (n + j))
         else None)"

text \<open>
  The length \<open>segments[:, 1] - segments[:, 0]\<close> of a segment, a 64-bit difference, and the
  size mask \<open>(v > max_intertad_size) & np.isfinite(v) & (v < max_tad_size)\<close>; the lengths
  are integers, hence finite.
\<close>

definition segment_length :: "segment \<Rightarrow> int" where
  "segment_length s = wrap64 (snd s - fst s)"

definition size_mask :: "int \<Rightarrow> int \<Rightarrow> segment \<Rightarrow> bool" where
  "size_mask max_intertad_size max_tad_size s =
     (let v = segment_length s in v > max_intertad_size \<and> v < max_tad_size)"

text \<open>
  The body of the \<^verbatim>\<open>try\<close> block of \<^verbatim>\<open>produce_tads_segmentation\<close> up to \<open>thresh\<close>;
  \<open>None\<close> stands for any exception, which the source catches with
  \<^verbatim>\<open>except Exception\<close>. \<open>np.sum\<close> is a 64-bit sum; the quotient by
  \<open>mtx.shape[0]\<close>, the product with \<open>len(hist_arr)\<close> and the sum of the two entries
  of \<open>hist_arr\<close> are float64 operations on converted integers, respectively on floats;
  halving a float is exact. With \<open>mtx.shape[0] = 0\<close> the quotient is \<open>inf\<close> or
  \<open>nan\<close> and \<open>int()\<close> raises.
\<close>

definition noise_thresh :: "real list \<Rightarrow> stripe list \<Rightarrow> nat \<Rightarrow> real option" where
  "noise_thresh hist_arr fs n_bins =
     (if n_bins = 0 then None
      else
        (let total = wrap64 (sum_list (map (\<lambda>f. snd f - fst f + 1) fs));
             noise_freq = fl64 (fl64 (real_of_int total) / fl64 (real n_bins));
             j = py_int (fl64 (fl64 (real (length hist_arr)) * noise_freq))
         in case np_index (py_slice_to hist_arr j) (- 1) of
              None \<Rightarrow> None
            | Some a \<Rightarrow> (case np_index hist_arr j of
                          None \<Rightarrow> None
                        | Some b \<Rightarrow> Some (fl64 (a + b) / 2))))"

text \<open>The boolean-mask selection \<open>segments[metric_values > thresh]\<close>.\<close>

definition select_above :: "segment list \<Rightarrow> real list \<Rightarrow> real \<Rightarrow> segment list" where
  "select_above segments metric_values thresh =
     map fst (filter (\<lambda>sm. snd sm > thresh) (zip segments metric_values))"

text \<open>
  \<^verbatim>\<open>produce_tads_segmentation\<close>. \<open>optimal\<close> is the result of
  \<^verbatim>\<open>model.optimal_segmentation()\<close> for the given matrix, gamma and bin mask, \<open>n_bins\<close> is
  \<open>mtx.shape[0]\<close>. \<open>None\<close> is the bare \<^verbatim>\<open>return\<close> for an unsupported method.

  The function is given twice. In \<open>produce_tads_segmentation_with\<close> the float64 value
  that \<^verbatim>\<open>calc_noisy_metric(x, filters, ch, method, resolution=0, k=0)\<close> returns for the
  segment \<open>x\<close> is the parameter \<open>metric\<close>: sorting, the threshold and the selection
  compare these values with each other, so their last bits matter.
  \<open>produce_tads_segmentation\<close> is the instance with the idealised metric
  \<open>calc_noisy_metric\<close> above.
\<close>

definition produce_tads_segmentation_with ::
  "(segment \<Rightarrow> real) \<Rightarrow> segment list \<Rightarrow> nat \<Rightarrow> stripe list \<Rightarrow> string \<Rightarrow> int \<Rightarrow> int
   \<Rightarrow> segment list option" where
  "produce_tads_segmentation_with metric optimal n_bins fs method max_intertad_size max_tad_size =
     (if method = ''modularity'' \<or> method = ''armatus'' then
        (let segments = filter (size_mask max_intertad_size max_tad_size) optimal;
             metric_values = map metric segments;
             hist_arr = filter (\<lambda>m. m > 0) (sort metric_values)
         in case noise_thresh hist_arr fs n_bins of
              Some thresh \<Rightarrow> Some (select_above segments metric_values thresh)
            | None \<Rightarrow> Some segments)
      else None)"

definition produce_tads_segmentation ::
  "segment list \<Rightarrow> nat \<Rightarrow> stripe list \<Rightarrow> string \<Rightarrow> int \<Rightarrow> int \<Rightarrow> segment list option" where
  "produce_tads_segmentation optimal n_bins fs method max_intertad_size max_tad_size =
     produce_tads_segmentation_with (\<lambda>x. calc_noisy_metric x fs method 0 0)
       optimal n_bins fs method max_intertad_size max_tad_size"

text \<open>
  \<^verbatim>\<open>produce_boundaries_segmentation\<close> from the computation of \<open>metric_values\<close> on;
  \<open>boundaries_coords\<close> are the rows the boundary caller returned with a non-null strength.
\<close>

definition produce_boundaries_segmentation ::
  "segment list \<Rightarrow> stripe list \<Rightarrow> string \<Rightarrow> int \<Rightarrow> int \<Rightarrow> segment list" where
  "produce_boundaries_segmentation boundaries_coords fs method resolution k =
     (let metric_values = map (\<lambda>x. calc_noisy_metric x fs method resolution k) boundaries_coords;
          thresh = 0
      in select_above boundaries_coords metric_values thresh)"

text \<open>
  Names for the two intermediate values of \<^verbatim>\<open>produce_tads_segmentation\<close>: the segments left
  by the size mask, and \<open>hist_arr\<close>, their sorted positive metrics.
\<close>

definition candidates :: "segment list \<Rightarrow> int \<Rightarrow> int \<Rightarrow> segment list" where
  "candidates optimal max_intertad_size max_tad_size =
     filter (size_mask max_intertad_size max_tad_size) optimal"

definition positive_metrics :: "(segment \<Rightarrow> real) \<Rightarrow> segment list \<Rightarrow> real list" where
  "positive_metrics metric segments = filter (\<lambda>m. m > 0) (sort (map metric segments))"

section \<open>Insulation statistics: \<^verbatim>\<open>calc_mean_tad_size\<close> and its caller\<close>

text \<open>
  One row of the boundaries dataframe: its coordinates, and the insulation score and the
  boundary strength of the window at hand. One row of \<open>select_tads\<close>: the TAD between two
  consecutive boundaries.
\<close>

record boundary =
  b_start :: int
  b_end :: int
  b_insulation :: real
  b_strength :: real

record tad_row =
  left_start :: int
  left_end :: int
  right_start :: int
  right_end :: int
  left_insulation :: real
  right_insulation :: real
  left_boundary_strength :: real
  right_boundary_strength :: real
  tad_length :: real

text \<open>
  The column \<open>length\<close> is \<open>(right_start - left_end) / resolution\<close>: a 64-bit difference,
  converted and divided in float64.
\<close>

definition make_tad :: "int \<Rightarrow> boundary \<Rightarrow> boundary \<Rightarrow> tad_row" where
  "make_tad resolution l r =
     \<lparr> left_start = b_start l, left_end = b_end l,
       right_start = b_start r, right_end = b_end r,
       left_insulation = b_insulation l, right_insulation = b_insulation r,
       left_boundary_strength = b_strength l, right_boundary_strength = b_strength r,
       tad_length = fl64 (fl64 (real_of_int (wrap64 (b_start r - b_end l)))
                          / fl64 (real_of_int resolution)) \<rparr>"

text \<open>The rows built from \<open>boundaries.iloc[:-1]\<close> and \<open>boundaries.iloc[1:]\<close>.\<close>

definition select_tads :: "boundary list \<Rightarrow> int \<Rightarrow> tad_row list" where
  "select_tads boundaries resolution =
     map (\<lambda>lr. make_tad resolution (fst lr) (snd lr)) (zip (butlast boundaries) (tl boundaries))"

text \<open>
  \<open>(length > mis) & (length < mts)\<close>, the two bounds converted to float64. With
  \<open>resolution = 0\<close> every length is \<open>inf\<close>, \<open>-inf\<close> or \<open>nan\<close> in the source, and no
  row passes.
\<close>

definition length_mask :: "int \<Rightarrow> int \<Rightarrow> int \<Rightarrow> tad_row \<Rightarrow> bool" where
  "length_mask mis mts resolution t =
     (resolution \<noteq> 0 \<and> tad_length t > fl64 (real_of_int mis)
      \<and> tad_length t < fl64 (real_of_int mts))"

text \<open>\<open>is_normal\<close>: no stripe lies between the left boundary's end and the right one's start.\<close>

definition is_normal :: "stripe list \<Rightarrow> tad_row \<Rightarrow> bool" where
  "is_normal fs t = (filter (\<lambda>f. fst f \<ge> left_end t \<and> snd f \<le> right_start t) fs = [])"

definition retained_tads :: "boundary list \<Rightarrow> stripe list \<Rightarrow> int \<Rightarrow> int \<Rightarrow> int \<Rightarrow> tad_row list" where
  "retained_tads boundaries fs mis mts resolution =
     filter (is_normal fs) (filter (length_mask mis mts resolution) (select_tads boundaries resolution))"

text \<open>\<open>list(left) + [list(right)[-1]]\<close>; the IndexError on an empty frame is \<open>None\<close>.\<close>

definition with_last_right :: "real list \<Rightarrow> real list \<Rightarrow> real list option" where
  "with_last_right left right = (if right = [] then None else Some (left @ [last right]))"

text \<open>\<open>np.mean\<close> followed by the replacement of \<open>nan\<close> by 0 at the end of the function:
  the sum of the floats, divided in float64 by their number. The order in which pandas and
  numpy add the floats is not fixed by the source: the sum of a column, here and in
  \<open>sum_cov\<close> below, is the exact one, which is the computed one whenever the partial sums
  are float64 numbers (lengths that are integers below \<open>2^53\<close>, for instance).\<close>

definition mean_or_zero :: "real list \<Rightarrow> real" where
  "mean_or_zero xs = (if xs = [] then 0 else fl64 (sum_list xs / fl64 (real (length xs))))"

text \<open>A Python value of the returned tuple: a number or a list of numbers.\<close>

datatype pyval = PyFloat real | PyList "real list"

text \<open>\<^verbatim>\<open>calc_mean_tad_size\<close>; the result is the tuple of the \<^verbatim>\<open>return\<close> statement, as the
  list of its components.\<close>

definition calc_mean_tad_size ::
  "boundary list \<Rightarrow> stripe list \<Rightarrow> int \<Rightarrow> int \<Rightarrow> int \<Rightarrow> pyval list" where
  "calc_mean_tad_size boundaries fs mis mts resolution =
     (let all_tads = select_tads boundaries resolution;
          full_ins = (case with_last_right (map left_insulation all_tads)
                             (map right_insulation all_tads) of
                        Some l \<Rightarrow> l | None \<Rightarrow> []);
          full_bsc = (case with_last_right (map left_boundary_strength all_tads)
                             (map right_boundary_strength all_tads) of
                        Some l \<Rightarrow> l | None \<Rightarrow> []);
          kept = retained_tads boundaries fs mis mts resolution;
          mean_tad = mean_or_zero (map tad_length kept);
          mean_ins = (case with_last_right (map left_insulation kept)
                             (map right_insulation kept) of
                        Some l \<Rightarrow> mean_or_zero l | None \<Rightarrow> 0);
          mean_bsc = (case with_last_right (map left_boundary_strength kept)
                             (map right_boundary_strength kept) of
                        Some l \<Rightarrow> mean_or_zero l | None \<Rightarrow> 0);
          sum_cov = sum_list (map tad_length kept)
      in [PyFloat mean_tad, PyFloat sum_cov, PyFloat mean_ins, PyFloat mean_bsc,
          PyList full_ins, PyList full_bsc])"

text \<open>
  The assignment \<^verbatim>\<open>a, b, c = t\<close> of Python: it binds three names to a tuple of exactly
  three components and raises \<open>ValueError\<close> otherwise.
\<close>

definition unpack3 :: "pyval list \<Rightarrow> error + (pyval \<times> pyval \<times> pyval)" where
  "unpack3 t = (case t of [a, b, c] \<Rightarrow> Inr (a, b, c) | _ \<Rightarrow> Inl ValueError)"

text \<open>
  The statistics step of \<^verbatim>\<open>search_opt_window\<close> for the first window of one chromosome
  (\<^verbatim>\<open>api.py\<close>, from the call of \<^verbatim>\<open>calc_mean_tad_size\<close> to the first write into
  \<open>stats[ch]\<close>). \<open>stats\<close> is \<open>stats[ch]\<close>, a dictionary from windows to tuples.
\<close>

type_synonym window_stats = "pyval \<times> pyval \<times> nat \<times> pyval"

definition search_opt_window_stats ::
  "boundary list \<Rightarrow> segment list \<Rightarrow> stripe list \<Rightarrow> int \<Rightarrow> int \<Rightarrow> int \<Rightarrow> int
   \<Rightarrow> (int \<rightharpoonup> window_stats) \<Rightarrow> error + (int \<rightharpoonup> window_stats)" where
  "search_opt_window_stats boundaries_0 boundaries_coords_0 fs mis mts grid_0 resolution stats =
     (case unpack3 (calc_mean_tad_size boundaries_0 fs mis mts resolution) of
        Inl e \<Rightarrow> Inl e
      | Inr (mean_tad_size_prev, sum_cov_prev, mean_ins_prev) \<Rightarrow>
          Inr (stats(grid_0 \<mapsto>
                 (mean_tad_size_prev, sum_cov_prev, length boundaries_coords_0, mean_ins_prev))))"

section \<open>NoiseMaskBuilder: \<^verbatim>\<open>get_noisy_stripes\<close>\<close>

text \<open>
  The model starts after the clipping and the logarithm: \<open>mtx\<close> is the transformed matrix,
  a list of rows. \<open>zero_rows\<close> is \<open>np.where(np.sum(mtx, axis=1) == 0)[0]\<close>.
\<close>

definition zero_rows :: "real list list \<Rightarrow> int list" where
  "zero_rows mtx = map int (filter (\<lambda>i. sum_list (mtx ! i) = 0) [0..<length mtx])"

text \<open>\<open>v_tmp[-1].append(a)\<close> on the list of lists \<open>v_tmp\<close>.\<close>

definition append_last :: "int list list \<Rightarrow> int \<Rightarrow> int list list" where
  "append_last v_tmp a = butlast v_tmp @ [last v_tmp @ [a]]"

text \<open>The body of \<^verbatim>\<open>for i in range(1, len(v) - 1)\<close>, over the elements \<open>v[i]\<close> it visits.\<close>

fun stripes_loop :: "int list \<Rightarrow> int \<Rightarrow> int list list \<Rightarrow> int \<times> int list list" where
  "stripes_loop [] v_prev v_tmp = (v_prev, v_tmp)"
| "stripes_loop (v_i # rest) v_prev v_tmp =
     (if v_i - v_prev = 1 then stripes_loop rest v_i v_tmp
      else stripes_loop rest v_i (append_last v_tmp v_prev @ [[v_i]]))"

text \<open>
  From \<open>v_prev = v[0]\<close> to \<open>filt\<close>. \<open>v[0]\<close> on an empty array raises IndexError. The indices
  \<open>1, \<dots>, len(v) - 2\<close> of the range select \<open>butlast (tl v)\<close>.
\<close>

definition noisy_runs :: "int list \<Rightarrow> error + stripe list" where
  "noisy_runs v =
     (case v of
        [] \<Rightarrow> Inl IndexError
      | v_0 # _ \<Rightarrow>
          (let (v_prev, v_tmp) = stripes_loop (butlast (tl v)) v_0 [[v_0]];
               v_tmp = append_last v_tmp v_prev;
               filt = filter (\<lambda>r. r ! 1 - r ! 0 \<ge> 0) v_tmp
           in Inr (map (\<lambda>r. (r ! 0, r ! 1)) filt)))"

text \<open>The slice assignment \<open>good_bins[lo:hi] = False\<close> for bounds that are not negative.\<close>

definition clear_slice :: "bool list \<Rightarrow> int \<Rightarrow> int \<Rightarrow> bool list" where
  "clear_slice good_bins lo hi =
     map (\<lambda>i. if lo \<le> int i \<and> int i < hi then False else good_bins ! i) [0..<length good_bins]"

text \<open>
  \<^verbatim>\<open>get_noisy_stripes\<close>: the stripes \<open>filters[ch]\<close> and the mask \<open>good_bins\<close>. For the
  insulation method with \<open>resolution = 0\<close> the quotient \<open>stripe[0] / resolution\<close> is \<open>nan\<close> and
  \<open>int()\<close> raises ValueError.
\<close>

definition get_noisy_stripes ::
  "real list list \<Rightarrow> string \<Rightarrow> int \<Rightarrow> error + (stripe list \<times> bool list)" where
  "get_noisy_stripes mtx method resolution =
     (case noisy_runs (zero_rows mtx) of
        Inl e \<Rightarrow> Inl e
      | Inr filt \<Rightarrow>
          (let filters_ch =
                 (if method = ''insulation''
                  then map (\<lambda>elem. (fst elem * resolution, snd elem * resolution + resolution)) filt
                  else filt)
           in if method = ''insulation'' \<and> resolution = 0 then Inl ValueError
              else Inr (filters_ch,
                     fold (\<lambda>stripe good_bins.
                             if method = ''insulation''
                             then clear_slice good_bins
                                    (py_int (real_of_int (fst stripe) / real_of_int resolution))
                                    (py_int (real_of_int (snd stripe) / real_of_int resolution))
                             else clear_slice good_bins (fst stripe) (snd stripe + 1))
                          filters_ch (replicate (length mtx) True))))"

text \<open>
  Bin \<open>i\<close> lies in a stripe: between its two bin indices, both included, for the
  density-score methods; for the insulation method, whose stripes are genomic coordinates
  with an exclusive end, the coordinate \<open>i * resolution\<close> of the bin lies in it.
\<close>

definition bin_in_stripe :: "string \<Rightarrow> int \<Rightarrow> nat \<Rightarrow> stripe \<Rightarrow> bool" where
  "bin_in_stripe method resolution i s =
     (if method = ''insulation''
      then fst s \<le> int i * resolution \<and> int i * resolution < snd s
      else fst s \<le> int i \<and> int i \<le> snd s)"

section \<open>GlobalOptimumFinder: \<^verbatim>\<open>find_global_optima\<close>\<close>

text \<open>
  A float of numpy: \<open>nan\<close> or a finite number. Arithmetic propagates \<open>nan\<close>, and every
  comparison with \<open>nan\<close> is false. Differences and products are rounded.
\<close>

datatype npfloat = NaN | Fin real

definition fsub :: "npfloat \<Rightarrow> real \<Rightarrow> npfloat" where
  "fsub a t = (case a of NaN \<Rightarrow> NaN | Fin x \<Rightarrow> Fin (fl64 (x - t)))"

definition fmul :: "npfloat \<Rightarrow> npfloat \<Rightarrow> npfloat" where
  "fmul a b =
     (case a of NaN \<Rightarrow> NaN | Fin x \<Rightarrow> (case b of NaN \<Rightarrow> NaN | Fin y \<Rightarrow> Fin (fl64 (x * y))))"

definition fabs :: "npfloat \<Rightarrow> npfloat" where
  "fabs a = (case a of NaN \<Rightarrow> NaN | Fin x \<Rightarrow> Fin \<bar>x\<bar>)"

definition fle :: "npfloat \<Rightarrow> npfloat \<Rightarrow> bool" where
  "fle a b = (case a of NaN \<Rightarrow> False | Fin x \<Rightarrow> (case b of NaN \<Rightarrow> False | Fin y \<Rightarrow> x \<le> y))"

fun fin_val :: "npfloat \<Rightarrow> real" where
  "fin_val (Fin x) = x"
| "fin_val NaN = 0"

text \<open>
  \<open>np.mean\<close> of an integer array: \<open>nan\<close> on the empty array, else the float64 sum of
  the converted entries divided by their number. \<open>float_mean\<close> takes the float64 sum as
  the rounded exact sum, which it is whenever the absolute values of the entries add up to
  less than \<open>2^53\<close>: then every partial sum is an integer that float64 represents, in
  whatever order numpy adds.
\<close>

definition float_mean :: "int list \<Rightarrow> real" where
  "float_mean xs = fl64 (fl64 (real_of_int (sum_list xs)) / fl64 (real (length xs)))"

definition np_mean :: "int list \<Rightarrow> npfloat" where
  "np_mean xs = (if xs = [] then NaN else Fin (float_mean xs))"

text \<open>\<open>np.argmin\<close> on floats: the first \<open>nan\<close> if there is one, else the first minimum.\<close>

definition np_argmin_float :: "npfloat list \<Rightarrow> nat" where
  "np_argmin_float xs =
     (case first_index xs NaN of Some i \<Rightarrow> i | None \<Rightarrow> np_argmin (map fin_val xs))"

text \<open>
  A Python dictionary as the list of its items in insertion order: \<open>d[k] = v\<close> replaces the
  value of a key that is present, in place, and appends a new key.
\<close>

fun dict_set :: "('k \<times> 'v) list \<Rightarrow> 'k \<Rightarrow> 'v \<Rightarrow> ('k \<times> 'v) list" where
  "dict_set [] k v = [(k, v)]"
| "dict_set (kv # d) k v = (if fst kv = k then (k, v) # d else kv # dict_set d k v)"

text \<open>\<open>max(d.items(), key=operator.itemgetter(1))\<close>: the first item of maximal value;
  \<open>None\<close> on an empty dictionary.\<close>

fun max_item :: "('k \<times> int) \<Rightarrow> ('k \<times> int) list \<Rightarrow> 'k \<times> int" where
  "max_item best [] = best"
| "max_item best (kv # rest) = max_item (if snd kv > snd best then kv else best) rest"

definition py_max_by_value :: "('k \<times> int) list \<Rightarrow> ('k \<times> int) option" where
  "py_max_by_value d = (case d of [] \<Rightarrow> None | kv # rest \<Rightarrow> Some (max_item kv rest))"

text \<open>The array \<open>segments[:, 1] - segments[:, 0]\<close>, and \<open>np.sum\<close> of it, a 64-bit
  sum.\<close>

definition seg_lengths :: "segment list \<Rightarrow> int list" where
  "seg_lengths segments = map segment_length segments"

definition coverage :: "segment list \<Rightarrow> int" where
  "coverage segments = wrap64 (sum_list (seg_lengths segments))"

text \<open>\<open>expected / resolution\<close>, the correctly rounded quotient of two Python
  integers.\<close>

definition target_size :: "int \<Rightarrow> int \<Rightarrow> real" where
  "target_size expected resolution = fl64 (real_of_int expected / real_of_int resolution)"

record scan_state =
  gamma_prev :: real
  cov_prev :: int
  mean_tad_size_prev :: npfloat
  local_optimas :: "(real \<times> int) list"
  mean_tad_sizes :: "npfloat list"
  covs :: "int list"

text \<open>
  One iteration of \<^verbatim>\<open>for gamma in new_grid[1:]\<close>. \<open>tads gamma\<close> is the array
  \<^verbatim>\<open>produce_tads_segmentation\<close> returns for \<open>gamma\<close>, \<open>target\<close> is
  \<open>expected / resolution\<close>.
\<close>

definition scan_step :: "(real \<Rightarrow> segment list) \<Rightarrow> real \<Rightarrow> scan_state \<Rightarrow> real \<Rightarrow> scan_state" where
  "scan_step tads target st gamma =
     (let segments = tads gamma;
          mean_tad_size = np_mean (seg_lengths segments);
          cov = coverage segments;
          optimas =
            (if fle (fmul (fsub mean_tad_size target) (fsub (mean_tad_size_prev st) target)) (Fin 0)
             then (if fle (fabs (fsub mean_tad_size target))
                          (fabs (fsub (mean_tad_size_prev st) target))
                   then dict_set (local_optimas st) gamma cov
                   else dict_set (local_optimas st) (gamma_prev st) (cov_prev st))
             else local_optimas st)
      in \<lparr> gamma_prev = gamma, cov_prev = cov, mean_tad_size_prev = mean_tad_size,
           local_optimas = optimas,
           mean_tad_sizes = mean_tad_sizes st @ [mean_tad_size],
           covs = covs st @ [cov] \<rparr>)"

text \<open>
  \<^verbatim>\<open>find_global_optima\<close>, its returned \<open>opt_gamma\<close>; the accumulated dataframe is left
  out. \<open>new_grid\<close> is the array \<open>np.arange\<close> builds from the adjusted grid.
  \<open>new_grid[0]\<close> raises IndexError on an empty grid, \<open>expected / resolution\<close> raises
  ZeroDivisionError.
\<close>

definition find_global_optima ::
  "(real \<Rightarrow> segment list) \<Rightarrow> real list \<Rightarrow> int \<Rightarrow> int \<Rightarrow> error + real" where
  "find_global_optima tads new_grid expected resolution =
     (case new_grid of
        [] \<Rightarrow> Inl IndexError
      | g_0 # rest \<Rightarrow>
          if resolution = 0 then Inl ZeroDivisionError
          else
            (let target = target_size expected resolution;
                 segments_0 = tads g_0;
                 st_0 = \<lparr> gamma_prev = g_0, cov_prev = coverage segments_0,
                          mean_tad_size_prev = np_mean (seg_lengths segments_0),
                          local_optimas = [],
                          mean_tad_sizes = [np_mean (seg_lengths segments_0)],
                          covs = [coverage segments_0] \<rparr>;
                 st = foldl (scan_step tads target) st_0 rest;
                 i = np_argmin_float (map (\<lambda>x. fabs (fsub x target)) (mean_tad_sizes st));
                 optimas = dict_set (local_optimas st) (new_grid ! i) (covs st ! i)
             in case py_max_by_value optimas of
                  None \<Rightarrow> Inl ValueError
                | Some kv \<Rightarrow> Inr (fst kv)))"

text \<open>
  The description of the candidates in the words of the specification. \<open>profile\<close> lists,
  for every grid parameter, its mean segment size, which is the float64 number nearest to
  the exact mean of the lengths \<open>end - start\<close>, and its total coverage, the exact sum of
  the lengths, for segmentations that are not empty. \<open>deviation t m\<close> is the difference
  \<open>mean_size - target\<close> as float64 computes it, and the distance of a mean to the target
  is its absolute value: a mean is closer to the target than another when this computed
  distance is smaller.
  \<open>crossing_candidates\<close> registers, for each pair of consecutive grid points whose
  deviations the test \<open>cr\<close> accepts, the one whose mean is closer to the target;
  \<open>closest_candidate\<close> is the first grid point of globally closest mean. Two readings of
  the test: \<open>sign_change\<close>, the words of the claim, and \<open>product_nonpos\<close>, the comparison
  \<open>(a - t) * (b - t) <= 0\<close> of the source on the float64 product, which also accepts
  two means that are both on target. \<open>max_coverage_parameter\<close> is the registered
  parameter of maximal coverage, the first one in insertion order.
\<close>

definition deviation :: "real \<Rightarrow> real \<Rightarrow> real" where
  "deviation t m = fl64 (m - t)"

definition exact_lengths :: "segment list \<Rightarrow> int list" where
  "exact_lengths segments = map (\<lambda>s. snd s - fst s) segments"

definition real_mean :: "int list \<Rightarrow> real" where
  "real_mean xs = real_of_int (sum_list xs) / real (length xs)"

definition profile :: "(real \<Rightarrow> segment list) \<Rightarrow> real list \<Rightarrow> (real \<times> real \<times> int) list" where
  "profile tads grid =
     map (\<lambda>g. (g, fl64 (real_mean (exact_lengths (tads g))), sum_list (exact_lengths (tads g))))
       grid"

definition sign_change :: "real \<Rightarrow> real \<Rightarrow> bool" where
  "sign_change a b = (sgn a \<noteq> sgn b)"

definition product_nonpos :: "real \<Rightarrow> real \<Rightarrow> bool" where
  "product_nonpos a b = (fl64 (a * b) \<le> 0)"

fun crossing_candidates ::
  "(real \<Rightarrow> real \<Rightarrow> bool) \<Rightarrow> real \<Rightarrow> (real \<times> real \<times> int) list \<Rightarrow> (real \<times> int) list" where
  "crossing_candidates cr t (p # q # rest) =
     (if cr (deviation t (fst (snd q))) (deviation t (fst (snd p)))
      then [if \<bar>deviation t (fst (snd q))\<bar> \<le> \<bar>deviation t (fst (snd p))\<bar>
            then (fst q, snd (snd q))
            else (fst p, snd (snd p))]
      else [])
     @ crossing_candidates cr t (q # rest)"
| "crossing_candidates cr t [p] = []"
| "crossing_candidates cr t [] = []"

definition closest_candidate :: "real \<Rightarrow> (real \<times> real \<times> int) list \<Rightarrow> real \<times> int" where
  "closest_candidate t prof =
     (let i = np_argmin (map (\<lambda>p. \<bar>deviation t (fst (snd p))\<bar>) prof)
      in (fst (prof ! i), snd (snd (prof ! i))))"

text \<open>
  \<open>computed_profile\<close>: the means and the coverages as the source computes them, in 64-bit
  and float64 arithmetic. The segmentations on which it computes the lengths and their
  sums exactly: there are fewer than \<open>2^53\<close> segments, and their coordinates add up, in
  absolute value, to less than \<open>2^53\<close>, so that no length and no sum of lengths overflows
  or is rounded.
\<close>

definition computed_profile ::
  "(real \<Rightarrow> segment list) \<Rightarrow> real list \<Rightarrow> (real \<times> real \<times> int) list" where
  "computed_profile tads grid =
     map (\<lambda>g. (g, float_mean (seg_lengths (tads g)), coverage (tads g))) grid"

definition exact_sizes :: "segment list \<Rightarrow> bool" where
  "exact_sizes segments =
     (int (length segments) < 2 ^ 53
      \<and> sum_list (map (\<lambda>s. \<bar>fst s\<bar> + \<bar>snd s\<bar>) segments) < 2 ^ 53)"

definition registered ::
  "(real \<Rightarrow> real \<Rightarrow> bool) \<Rightarrow> real \<Rightarrow> (real \<times> real \<times> int) list \<Rightarrow> (real \<times> int) list" where
  "registered cr t prof = crossing_candidates cr t prof @ [closest_candidate t prof]"

definition register_all :: "(real \<times> int) list \<Rightarrow> (real \<times> int) list \<Rightarrow> (real \<times> int) list" where
  "register_all d regs = foldl (\<lambda>d kv. dict_set d (fst kv) (snd kv)) d regs"

definition max_coverage_parameter :: "(real \<times> int) list \<Rightarrow> real option" where
  "max_coverage_parameter regs =
     (let d = register_all [] regs
      in if d = [] then None
         else Some (fst (hd (filter (\<lambda>kv. snd kv = Max (snd ` set d)) d))))"

section \<open>BoundaryNarrower: the bisection loop of \<^verbatim>\<open>adjust_boundaries\<close>\<close>

text \<open>
  Grid values are counted in units of the last decimal the source rounds to (\<open>start_step\<close>
  itself when it is 1), so they are integers. \<open>rnd s\<close> stands for
  \<open>round(s / 2)\<close>, respectively \<open>round(s / 2, digits)\<close>, applied to the sum \<open>s\<close> of
  two bounds. For \<open>start_step = 1\<close> it is Python's rounding of halves to the even
  neighbour, \<open>py_round_half\<close>.
\<close>

definition py_round_half :: "int \<Rightarrow> int" where
  "py_round_half s =
     (if even s then s div 2 else if even (s div 2) then s div 2 else s div 2 + 1)"

text \<open>\<open>int(np.argwhere(grid == b))\<close>: the index of \<open>b\<close>, TypeError unless exactly one
  position holds it.\<close>

definition grid_index :: "int list \<Rightarrow> int \<Rightarrow> error + nat" where
  "grid_index grid b =
     (case filter (\<lambda>i. grid ! i = b) [0..<length grid] of
        [i] \<Rightarrow> Inr i
      | _ \<Rightarrow> Inl TypeError)"

record ab_state =
  bound_1 :: int
  bound_1_prev :: int
  bound_2 :: int
  len_segments_prev :: nat
  is_begin :: bool
  delta :: nat

text \<open>The state before the loop; \<open>grid[-1]\<close> and \<open>grid[0]\<close> raise on an empty grid.\<close>

definition ab_init :: "int list \<Rightarrow> string \<Rightarrow> error + ab_state" where
  "ab_init grid type =
     (if grid = [] then Inl IndexError
      else Inr \<lparr> bound_1 = (if type = ''upper'' then last grid else hd grid),
                 bound_1_prev = (if type = ''upper'' then last grid else hd grid),
                 bound_2 = (if type = ''upper'' then hd grid else last grid),
                 len_segments_prev = 0,
                 is_begin = True,
                 delta = length grid \<rparr>)"

text \<open>
  One iteration of \<^verbatim>\<open>while delta > 1\<close>, in two parts: \<open>ab_move\<close> is the body up to the
  new bounds, \<open>ab_step\<close> adds the last line, which recomputes \<open>delta\<close> from the positions
  of the two bounds in the grid. \<open>nseg b\<close> is the number of segments
  \<^verbatim>\<open>produce_tads_segmentation\<close> returns for the parameter \<open>b\<close>.
\<close>

definition ab_move :: "(int \<Rightarrow> nat) \<Rightarrow> (int \<Rightarrow> int) \<Rightarrow> ab_state \<Rightarrow> ab_state" where
  "ab_move nseg rnd s =
     (let len_segments = nseg (bound_1 s);
          prev = (if is_begin s then len_segments else len_segments_prev s)
      in if len_segments \<noteq> prev
         then s\<lparr> bound_2 := bound_1 s,
                 bound_1 := rnd (bound_1 s + bound_1_prev s),
                 is_begin := False \<rparr>
         else s\<lparr> len_segments_prev := len_segments,
                 bound_1_prev := bound_1 s,
                 bound_1 := rnd (bound_1 s + bound_2 s),
                 is_begin := False \<rparr>)"

definition ab_step :: "(int \<Rightarrow> nat) \<Rightarrow> (int \<Rightarrow> int) \<Rightarrow> int list \<Rightarrow> ab_state \<Rightarrow> error + ab_state" where
  "ab_step nseg rnd grid s =
     (let s' = ab_move nseg rnd s
      in case grid_index grid (bound_1 s') of
           Inl e \<Rightarrow> Inl e
         | Inr i \<Rightarrow> (case grid_index grid (bound_2 s') of
                       Inl e \<Rightarrow> Inl e
                     | Inr j \<Rightarrow> Inr (s'\<lparr> delta := nat \<bar>int i - int j\<bar> \<rparr>)))"

text \<open>The loop itself; \<open>None\<close> is a run that never ends.\<close>

partial_function (option) ab_loop ::
  "(int \<Rightarrow> nat) \<Rightarrow> (int \<Rightarrow> int) \<Rightarrow> int list \<Rightarrow> ab_state \<Rightarrow> (error + ab_state) option" where
  "ab_loop nseg rnd grid s =
     (if delta s > 1
      then (case ab_step nseg rnd grid s of
              Inl e \<Rightarrow> Some (Inl e)
            | Inr s' \<Rightarrow> ab_loop nseg rnd grid s')
      else Some (Inr s))"

text \<open>\<^verbatim>\<open>adjust_boundaries\<close> up to \<open>bound_gamma_fixed = bound_1\<close>.\<close>

definition adjust_boundaries ::
  "(int \<Rightarrow> nat) \<Rightarrow> (int \<Rightarrow> int) \<Rightarrow> int list \<Rightarrow> string \<Rightarrow> (error + int) option" where
  "adjust_boundaries nseg rnd grid type =
     (case ab_init grid type of
        Inl e \<Rightarrow> Some (Inl e)
      | Inr s_0 \<Rightarrow> map_option (map_sum id bound_1) (ab_loop nseg rnd grid s_0))"

text \<open>The property of \<open>rnd\<close> the termination argument uses: it returns one of the two
  integers next to the half of its argument.\<close>

definition rounds_half :: "(int \<Rightarrow> int) \<Rightarrow> bool" where
  "rounds_half rnd = (\<forall>s. rnd s = s div 2 \<or> rnd s = (s + 1) div 2)"

text \<open>
  The quantities of the termination argument: \<open>bracket\<close> is the distance between the last
  bound known to be stable (\<open>bound_1_prev\<close>) and the bound known to differ (\<open>bound_2\<close>);
  \<open>ab_inv\<close> holds after every iteration: the probe \<open>bound_1\<close> is the rounded midpoint of the
  bracket, both \<open>bound_1\<close> and \<open>bound_2\<close> are grid values, and \<open>delta\<close> is their index
  distance.
\<close>

definition bracket :: "ab_state \<Rightarrow> nat" where
  "bracket s = nat \<bar>bound_1_prev s - bound_2 s\<bar>"

definition ab_inv :: "(int \<Rightarrow> int) \<Rightarrow> int list \<Rightarrow> ab_state \<Rightarrow> bool" where
  "ab_inv rnd grid s =
     (\<not> is_begin s \<and> bound_1 s = rnd (bound_1_prev s + bound_2 s)
      \<and> (\<exists>i j. grid_index grid (bound_1 s) = Inr i \<and> grid_index grid (bound_2 s) = Inr j
               \<and> delta s = nat \<bar>int i - int j\<bar>))"

section \<open>Properties of the machine numbers\<close>

lemma wrap64_id: "in_int64 v \<Longrightarrow> wrap64 v = v"
  by (simp add: wrap64_def in_int64_def)

lemma in_int64_abs: "\<bar>v\<bar> < 2 ^ 53 \<Longrightarrow> in_int64 v"
  unfolding in_int64_def by simp linarith

text \<open>Comparing a 64-bit difference with 0 is comparing the two operands.\<close>

lemma wrap64_diff_zero:
  assumes "in_int64 a" and "in_int64 b"
  shows "wrap64 (a - b) = 0 \<longleftrightarrow> a = b"
proof
  assume "wrap64 (a - b) = 0"
  then have "(a - b + 2 ^ 63) mod 2 ^ 64 = (0 + 2 ^ 63) mod (2 ^ 64 :: int)"
    by (simp add: wrap64_def)
  then have "(2 ^ 64 :: int) dvd (a - b + 2 ^ 63) - (0 + 2 ^ 63)"
    by (simp only: mod_eq_dvd_iff)
  then have d: "(2 ^ 64 :: int) dvd a - b" by simp
  have lt: "\<bar>a - b\<bar> < 2 ^ 64" using assms unfolding in_int64_def by simp linarith
  show "a = b"
  proof (rule ccontr)
    assume "a \<noteq> b"
    then have "a - b \<noteq> 0" by simp
    from dvd_imp_le_int [OF this d] show False using lt by simp
  qed
next
  assume "a = b"
  then show "wrap64 (a - b) = 0" by (simp add: wrap64_def)
qed

lemma round_half_even_near:
  "y - 1 / 2 \<le> real_of_int (round_half_even y) \<and> real_of_int (round_half_even y) \<le> y + 1 / 2"
proof -
  have "real_of_int \<lfloor>y\<rfloor> \<le> y" "y < real_of_int \<lfloor>y\<rfloor> + 1" by linarith+
  then show ?thesis unfolding round_half_even_def Let_def
    by (cases "y - real_of_int \<lfloor>y\<rfloor> < 1 / 2"; cases "y - real_of_int \<lfloor>y\<rfloor> > 1 / 2"; simp; linarith)
qed

lemma round_half_even_of_int [simp]: "round_half_even (real_of_int n) = n"
  by (simp add: round_half_even_def)

lemma ulp_bounds:
  assumes "x \<noteq> 0"
  defines "u \<equiv> 2 powr real_of_int (\<lfloor>log 2 \<bar>x\<bar>\<rfloor> - 52)"
  shows "0 < u" and "2 ^ 52 * u \<le> \<bar>x\<bar>" and "\<bar>x\<bar> < 2 ^ 53 * u"
proof -
  define e where "e = \<lfloor>log 2 \<bar>x\<bar>\<rfloor>"
  have ax: "0 < \<bar>x\<bar>" using assms(1) by simp
  show "0 < u" unfolding u_def by simp
  have u: "u = 2 powr real_of_int e / 2 ^ 52"
    unfolding u_def e_def [symmetric] by (simp add: powr_diff powr_realpow [symmetric])
  have "real_of_int e \<le> log 2 \<bar>x\<bar>" unfolding e_def by linarith
  then have "2 powr real_of_int e \<le> 2 powr log 2 \<bar>x\<bar>" by simp
  then have lo: "2 powr real_of_int e \<le> \<bar>x\<bar>" using ax by simp
  have "log 2 \<bar>x\<bar> < real_of_int e + 1" unfolding e_def by linarith
  then have "2 powr log 2 \<bar>x\<bar> < 2 powr (real_of_int e + 1)" by simp
  then have hi: "\<bar>x\<bar> < 2 * 2 powr real_of_int e" using ax by (simp add: powr_add)
  show "2 ^ 52 * u \<le> \<bar>x\<bar>" using lo unfolding u by simp
  show "\<bar>x\<bar> < 2 ^ 53 * u" using hi unfolding u by simp
qed

lemma fl64_near:
  assumes "0 < x"
  shows "3 / 4 * x \<le> fl64 x \<and> fl64 x \<le> 5 / 4 * x"
proof -
  define u where "u = 2 powr real_of_int (\<lfloor>log 2 \<bar>x\<bar>\<rfloor> - 52)"
  have x0: "x \<noteq> 0" using assms by simp
  note ub = ulp_bounds [OF x0, folded u_def]
  define y where "y = x / u"
  have xy: "x = u * y" using ub(1) by (simp add: y_def)
  have "2 ^ 52 * u \<le> x" using ub(2) assms by simp
  then have "2 ^ 52 \<le> y" unfolding y_def using ub(1) by (simp add: pos_le_divide_eq)
  then have y2: "2 \<le> y" by simp
  have fl: "fl64 x = u * real_of_int (round_half_even y)"
    using x0 unfolding fl64_def Let_def u_def [symmetric] y_def by simp
  have "3 / 4 * y \<le> real_of_int (round_half_even y)" "real_of_int (round_half_even y) \<le> 5 / 4 * y"
    using round_half_even_near [of y] y2 by linarith+
  then have "u * (3 / 4 * y) \<le> u * real_of_int (round_half_even y)"
    "u * real_of_int (round_half_even y) \<le> u * (5 / 4 * y)"
    using ub(1) by (simp_all only: mult_le_cancel_left_pos)
  then show ?thesis using xy unfolding fl by (simp add: algebra_simps)
qed

lemma fl64_pos: "0 < x \<Longrightarrow> 0 < fl64 x"
  using fl64_near [of x] by linarith

lemma round_half_even_minus: "round_half_even (- y) = - round_half_even y"
proof (cases "y = real_of_int \<lfloor>y\<rfloor>")
  case True
  then obtain n where "y = real_of_int n" by metis
  then show ?thesis by (simp flip: of_int_minus)
next
  case False
  then have c: "\<lceil>y\<rceil> = \<lfloor>y\<rfloor> + 1" by (simp add: ceiling_altdef)
  have fm: "\<lfloor>- y\<rfloor> = - \<lfloor>y\<rfloor> - 1" using c by (simp add: ceiling_def)
  have lt: "real_of_int \<lfloor>y\<rfloor> < y" using False by linarith
  show ?thesis
    unfolding round_half_even_def Let_def fm
    using lt by (auto split: if_splits)
qed

lemma fl64_minus: "fl64 (- x) = - fl64 x"
  by (simp add: fl64_def Let_def round_half_even_minus)

lemma fl64_exact_pos:
  assumes "0 < m" and "m < 2 ^ 53"
  shows "fl64 (real_of_int m * 2 powr real_of_int k) = real_of_int m * 2 powr real_of_int k"
proof -
  define x where "x = real_of_int m * 2 powr real_of_int k"
  have xp: "0 < x" using assms(1) by (simp add: x_def)
  define e where "e = \<lfloor>log 2 (real_of_int m)\<rfloor>"
  have m1: "1 \<le> real_of_int m" using assms(1) by simp
  have e0: "0 \<le> e" unfolding e_def using m1 by simp
  have "log 2 (real_of_int m) < 53"
  proof -
    have "real_of_int m < 2 ^ 53" using assms(2) by (simp flip: of_int_less_iff)
    then have "log 2 (real_of_int m) < log 2 (2 ^ 53)" using m1 by simp
    then show ?thesis using log_pow_cancel [of "2::real" 53] by simp
  qed
  then have e52: "e \<le> 52" unfolding e_def by linarith
  have lg: "log 2 \<bar>x\<bar> = log 2 (real_of_int m) + real_of_int k"
    using assms(1) xp unfolding x_def by (simp add: log_mult)
  have fe: "\<lfloor>log 2 \<bar>x\<bar>\<rfloor> = e + k" unfolding lg e_def by simp
  define u where "u = 2 powr real_of_int (e + k - 52)"
  define n where "n = nat (52 - e)"
  have ex: "real_of_int (e + k - 52) = real_of_int k - real n" using e52 by (simp add: n_def)
  have "u = 2 powr (real_of_int k - real n)" unfolding u_def ex ..
  also have "\<dots> = 2 powr real_of_int k / 2 powr real n" by (rule powr_diff)
  finally have u: "u = 2 powr real_of_int k / 2 ^ n" by (simp add: powr_realpow)
  have q: "x / u = real_of_int (m * 2 ^ n)" unfolding x_def u by simp
  have "fl64 x = u * real_of_int (round_half_even (x / u))"
    using xp unfolding fl64_def Let_def fe u_def by simp
  also have "\<dots> = u * real_of_int (m * 2 ^ n)" by (simp only: q round_half_even_of_int)
  also have "\<dots> = x" unfolding u x_def by simp
  finally show ?thesis unfolding x_def .
qed

lemma fl64_int: "x \<in> \<int> \<Longrightarrow> \<bar>x\<bar> < 2 ^ 53 \<Longrightarrow> fl64 x = x"
proof -
  assume "x \<in> \<int>" and b: "\<bar>x\<bar> < 2 ^ 53"
  then obtain m where x: "x = real_of_int m" by (auto elim: Ints_cases)
  have mb: "\<bar>m\<bar> < 2 ^ 53" using b unfolding x by (simp flip: of_int_abs of_int_less_iff)
  consider "m = 0" | "0 < m" | "m < 0" by linarith
  then show ?thesis
  proof cases
    case 1
    then show ?thesis by (simp add: x fl64_def)
  next
    case 2
    then show ?thesis using fl64_exact_pos [of m 0] mb by (simp add: x)
  next
    case 3
    then have "fl64 (real_of_int (- m)) = real_of_int (- m)"
      using fl64_exact_pos [of "- m" 0] mb by simp
    then show ?thesis using fl64_minus [of "real_of_int m"] by (simp add: x)
  qed
qed

lemma fl64_half: "fl64 (1 / 2) = 1 / 2"
  using fl64_exact_pos [of 1 "- 1"] by (simp add: powr_minus)

lemma fl64_zero [simp]: "fl64 0 = 0"
  by (simp add: fl64_def)

lemma fl64_nonpos_iff: "fl64 x \<le> 0 \<longleftrightarrow> x \<le> 0"
proof (cases "0 < x")
  case True
  then show ?thesis using fl64_pos [of x] by simp
next
  case False
  show ?thesis
  proof (cases "x = 0")
    case True
    then show ?thesis by simp
  next
    case nz: False
    then have "0 < - x" using False by simp
    then have "0 < fl64 (- x)" by (rule fl64_pos)
    then show ?thesis using False by (simp add: fl64_minus)
  qed
qed

lemma fl64_nat: "int n < 2 ^ 53 \<Longrightarrow> fl64 (real n) = real n"
proof -
  assume "int n < 2 ^ 53"
  then have "real_of_int (int n) < real_of_int (2 ^ 53)" by (simp only: of_int_less_iff)
  then have "\<bar>real n\<bar> < 2 ^ 53" by simp
  moreover have "real n \<in> \<int>" by simp
  ultimately show ?thesis by (intro fl64_int)
qed

lemma fl64_of_int: "\<bar>m\<bar> < 2 ^ 53 \<Longrightarrow> fl64 (real_of_int m) = real_of_int m"
proof -
  assume "\<bar>m\<bar> < 2 ^ 53"
  then have "real_of_int \<bar>m\<bar> < real_of_int (2 ^ 53)" by (simp only: of_int_less_iff)
  then have "\<bar>real_of_int m\<bar> < 2 ^ 53" by simp
  moreover have "real_of_int m \<in> \<int>" by simp
  ultimately show ?thesis by (intro fl64_int)
qed

text \<open>The rounding of a number whose binary exponent is known.\<close>

lemma fl64_eval:
  assumes "2 powr real_of_int e \<le> \<bar>x\<bar>" and "\<bar>x\<bar> < 2 powr (real_of_int e + 1)"
  shows "fl64 x = 2 powr real_of_int (e - 52)
                  * real_of_int (round_half_even (x / 2 powr real_of_int (e - 52)))"
proof -
  have "0 < 2 powr real_of_int e" by simp
  then have ax: "0 < \<bar>x\<bar>" using assms(1) by linarith
  then have x0: "x \<noteq> 0" by simp
  have "real_of_int e \<le> log 2 \<bar>x\<bar>" using assms(1) ax by (simp add: le_log_iff)
  moreover have "log 2 \<bar>x\<bar> < real_of_int e + 1" using assms(2) ax by (simp add: log_less_iff)
  ultimately have "\<lfloor>log 2 \<bar>x\<bar>\<rfloor> = e" by linarith
  then show ?thesis using x0 by (simp add: fl64_def Let_def)
qed

section \<open>Properties of the noise filter\<close>

lemma whether_tad_noisy_Cons:
  "whether_tad_noisy x (f # fs) method resolution k =
     (stripe_test x (expanded64 f method resolution k)
      \<or> whether_tad_noisy x fs method resolution k)"
proof -
  have ite: "\<And>P Q. (if P then True else Q) = (P \<or> Q)" by simp
  obtain b e where f: "f = (b, e)" by (cases f)
  show ?thesis
  proof (cases "method = ''insulation''")
    case True
    show ?thesis unfolding f True
      by (simp only: whether_tad_noisy.simps Let_def expanded64_def stripe_test_def
          fst_conv snd_conv if_True simp_thms ite disj_assoc)
  next
    case False
    show ?thesis unfolding f
      by (simp only: whether_tad_noisy.simps Let_def expanded64_def stripe_test_def
          fst_conv snd_conv False if_False simp_thms ite disj_assoc)
  qed
qed

lemma stripe_test_iff:
  "fst x \<le> snd x \<Longrightarrow> stripe_test x g = (covers_endpoint g x \<or> inside_with_width g x)"
  unfolding stripe_test_def covers_endpoint_def inside_with_width_def by linarith

lemma whether_tad_noisy_ex:
  "whether_tad_noisy x fs method resolution k =
     (\<exists>f \<in> set fs. stripe_test x (expanded64 f method resolution k))"
proof (induction fs)
  case Nil
  show ?case by simp
next
  case (Cons f fs)
  show ?case unfolding whether_tad_noisy_Cons Cons.IH by simp
qed

lemma inner_hit:
  assumes "fst x \<le> fst f" "snd f \<le> snd x" "fst f < snd f" "0 \<le> d"
  shows "stripe_test x (fst f - d, snd f + d)"
  using assms unfolding stripe_test_def fst_conv snd_conv by linarith

lemma expanded64_exact:
  assumes "no_overflow fs method resolution k" and "f \<in> set fs"
  shows "expanded64 f method resolution k = expanded f method resolution k"
proof (cases "method = ''insulation''")
  case True
  then have "in_int64 (fst f - resolution * k)" "in_int64 (snd f + resolution * k)"
    using assms unfolding no_overflow_def by blast+
  then show ?thesis by (simp add: expanded64_def expanded_def wrap64_id)
next
  case False
  then show ?thesis by (simp add: expanded64_def expanded_def)
qed

lemma whether_tad_noisy_exact:
  assumes "no_overflow fs method resolution k"
  shows "whether_tad_noisy x fs method resolution k =
           (\<exists>f \<in> set fs. stripe_test x (expanded f method resolution k))"
  unfolding whether_tad_noisy_ex using expanded64_exact [OF assms] by auto

text \<open>
  Claim C7. Whenever the expansion of the stripes does not overflow the 64-bit integers of
  the source (for the insulation method: \<open>resolution * k\<close> and the expanded bounds of
  every stripe lie in the 64-bit range), and for a segment with \<open>start \<le> end\<close>:
  \<^verbatim>\<open>whether_tad_noisy\<close> returns true exactly when some stripe, expanded by
  \<open>k * resolution\<close> for the insulation method only, covers one of the segment's endpoints
  or lies inside the segment with a width different from zero. In particular a segment
  that contains a stripe of positive width is classified noisy and
  \<^verbatim>\<open>calc_noisy_metric\<close> returns \<open>-1\<close> for it (the expansion being outward, that is
  \<open>resolution * k \<ge> 0\<close>, for the insulation method).
\<close>

theorem whether_tad_noisy_hard_reject:
  assumes "fst x \<le> snd x" and "no_overflow fs method resolution k"
  shows "(whether_tad_noisy x fs method resolution k \<longleftrightarrow>
            (\<exists>f \<in> set fs. covers_endpoint (expanded f method resolution k) x
                          \<or> inside_with_width (expanded f method resolution k) x))
         \<and> (\<forall>f \<in> set fs. fst x \<le> fst f \<and> snd f \<le> snd x \<and> fst f < snd f
                \<and> (method = ''insulation'' \<longrightarrow> 0 \<le> resolution * k)
              \<longrightarrow> whether_tad_noisy x fs method resolution k
                  \<and> calc_noisy_metric x fs method resolution k = - 1)"
proof (intro conjI ballI impI)
  show "whether_tad_noisy x fs method resolution k \<longleftrightarrow>
          (\<exists>f \<in> set fs. covers_endpoint (expanded f method resolution k) x
                        \<or> inside_with_width (expanded f method resolution k) x)"
    by (simp only: whether_tad_noisy_exact [OF assms(2)] stripe_test_iff [OF assms(1)])
next
  fix f
  assume f: "f \<in> set fs"
    and h: "fst x \<le> fst f \<and> snd f \<le> snd x \<and> fst f < snd f
            \<and> (method = ''insulation'' \<longrightarrow> 0 \<le> resolution * k)"
  have "stripe_test x (expanded f method resolution k)"
  proof (cases "method = ''insulation''")
    case True
    then have "0 \<le> resolution * k" using h by simp
    then have "stripe_test x (fst f - resolution * k, snd f + resolution * k)"
      using h by (intro inner_hit) simp_all
    then show ?thesis using True by (simp add: expanded_def)
  next
    case False
    have "stripe_test x (fst f - 0, snd f + 0)"
      using h by (intro inner_hit) simp_all
    then show ?thesis using False by (simp add: expanded_def)
  qed
  then have n: "whether_tad_noisy x fs method resolution k"
    using f whether_tad_noisy_exact [OF assms(2)] by blast
  then show "whether_tad_noisy x fs method resolution k" .
  from n show "calc_noisy_metric x fs method resolution k = - 1"
    by (simp add: calc_noisy_metric_def)
qed

theorem whether_tad_noisy_hard_reject_witness:
  "fst ((8, 14) :: segment) \<le> snd ((8, 14) :: segment)
   \<and> no_overflow [(10, 11)] ''armatus'' 0 0
   \<and> no_overflow [(10, 10)] ''armatus'' 0 0
   \<and> no_overflow [(15, 16)] ''insulation'' 1 1
   \<and> in_int64 (1 * 1) \<and> in_int64 (15 - 1 * 1) \<and> in_int64 (16 + 1 * 1)
   \<and> whether_tad_noisy (8, 14) [(10, 11)] ''armatus'' 0 0
   \<and> calc_noisy_metric (8, 14) [(10, 11)] ''armatus'' 0 0 = - 1
   \<and> \<not> whether_tad_noisy (8, 14) [(10, 10)] ''armatus'' 0 0
   \<and> whether_tad_noisy (8, 14) [(15, 16)] ''insulation'' 1 1"
proof -
  have x: "fst ((8, 14) :: segment) \<le> snd ((8, 14) :: segment)" by simp
  have n1: "no_overflow [(10, 11)] ''armatus'' 0 0"
    and n2: "no_overflow [(10, 10)] ''armatus'' 0 0"
    and n3: "no_overflow [(15, 16)] ''insulation'' 1 1"
    by (simp_all add: no_overflow_def in_int64_def)
  show ?thesis
    using x n1 n2 n3
      whether_tad_noisy_hard_reject [OF x n1]
      whether_tad_noisy_hard_reject [OF x n2]
      whether_tad_noisy_hard_reject [OF x n3]
    by (simp add: expanded_def covers_endpoint_def inside_with_width_def in_int64_def)
qed

text \<open>
  Beyond the 64-bit range the two readings part. With \<open>resolution = 2^62\<close> and \<open>k = 1\<close>
  the expanded end of the stripe \<open>(20, 2^62)\<close> is \<open>2^63\<close>, which wraps to \<open>-2^63\<close>: the
  exactly expanded stripe covers the segment \<open>(8, 14)\<close>, and the source answers false.
\<close>

lemma whether_tad_noisy_overflow:
  "\<not> no_overflow [(20, 2 ^ 62)] ''insulation'' (2 ^ 62) 1
   \<and> covers_endpoint (expanded (20, 2 ^ 62) ''insulation'' (2 ^ 62) 1) (8, 14)
   \<and> \<not> whether_tad_noisy (8, 14) [(20, 2 ^ 62)] ''insulation'' (2 ^ 62) 1"
  by (simp add: no_overflow_def in_int64_def expanded_def covers_endpoint_def wrap64_def)

lemma np_argmin_least:
  "xs \<noteq> [] \<Longrightarrow> np_argmin xs < length xs \<and> (\<forall>y \<in> set xs. xs ! np_argmin xs \<le> y)"
proof (induction xs rule: np_argmin.induct)
  case 1
  then show ?case by simp
next
  case (2 x)
  show ?case by simp
next
  case (3 x y ys)
  define j where "j = np_argmin (y # ys)"
  have ih: "j < length (y # ys)" "\<forall>z \<in> set (y # ys). (y # ys) ! j \<le> z"
    using 3 unfolding j_def by simp_all
  show ?case
  proof (cases "x \<le> (y # ys) ! j")
    case True
    then have "np_argmin (x # y # ys) = 0" by (simp add: j_def Let_def)
    moreover have "\<forall>z \<in> set (x # y # ys). x \<le> z" using True ih(2) by auto
    ultimately show ?thesis by simp
  next
    case False
    then have eq: "np_argmin (x # y # ys) = Suc j" by (simp add: j_def Let_def)
    have "(y # ys) ! j \<le> x" using False by simp
    then have "\<forall>z \<in> set (x # y # ys). (x # y # ys) ! Suc j \<le> z" using ih(2) by auto
    then show ?thesis using ih(1) unfolding eq by simp
  qed
qed

lemma first_index_Some:
  "v \<in> set as \<Longrightarrow> \<exists>i. first_index as v = Some i \<and> i < length as \<and> as ! i = v"
  by (induction as) auto

lemma filter_le_sorted_prefix:
  "sorted (es :: int list) \<Longrightarrow> filter (\<lambda>e. e \<le> c) es = takeWhile (\<lambda>e. e \<le> c) es"
proof (induction es)
  case Nil
  show ?case by simp
next
  case (Cons e es)
  show ?case
  proof (cases "e \<le> c")
    case True
    then show ?thesis using Cons by simp
  next
    case False
    then have "\<forall>y \<in> set es. \<not> y \<le> c" using Cons.prems by auto
    then have "filter (\<lambda>e. e \<le> c) es = []" by (simp add: filter_empty_conv)
    then show ?thesis using False by simp
  qed
qed

lemma left_stripe_None:
  "ends_before x fs = [] \<Longrightarrow> left_stripe x fs = None"
  by (simp add: left_stripe_def ends_before_def)

lemma left_stripe_nearest:
  assumes srt: "sorted (map snd fs)" and ne: "ends_before x fs \<noteq> []"
  shows "\<exists>l. left_stripe x fs = Some l \<and> snd l = Max (set (ends_before x fs))"
proof -
  define ends where "ends = map snd fs"
  define masked where "masked = filter (\<lambda>e. fst x - e \<ge> 0) ends"
  define j where "j = np_argmin (map (\<lambda>e. fst x - e) masked)"
  have masked_eq: "masked = ends_before x fs"
    by (simp add: masked_def ends_def ends_before_def)
  have mne: "masked \<noteq> []" using ne masked_eq by simp
  then have dne: "map (\<lambda>e. fst x - e) masked \<noteq> []" by simp
  have jlt: "j < length masked"
    using np_argmin_least [OF dne] by (simp add: j_def)
  have "\<forall>d \<in> set (map (\<lambda>e. fst x - e) masked). map (\<lambda>e. fst x - e) masked ! j \<le> d"
    using np_argmin_least [OF dne] unfolding j_def by blast
  moreover have "map (\<lambda>e. fst x - e) masked ! j = fst x - masked ! j"
    using jlt by (rule nth_map)
  ultimately have jmin: "\<forall>e \<in> set masked. fst x - masked ! j \<le> fst x - e"
    by simp
  have pre: "masked = takeWhile (\<lambda>e. e \<le> fst x) ends"
    using filter_le_sorted_prefix [of ends "fst x"] srt by (simp add: masked_def ends_def)
  have nth: "ends ! j = masked ! j"
    using jlt unfolding pre by (simp add: takeWhile_nth)
  have mem: "masked ! j \<in> set masked" using jlt by simp
  have "set masked \<subseteq> set ends" by (auto simp: masked_def)
  then have "masked ! j \<in> set ends" using mem by (rule subsetD)
  then have "ends ! j \<in> set ends" unfolding nth .
  from first_index_Some [OF this]
  obtain i where i: "first_index ends (ends ! j) = Some i" "i < length ends" "ends ! i = ends ! j"
    by (elim exE conjE)
  have ls: "left_stripe x fs = Some (fs ! i)"
    using mne i(1) unfolding left_stripe_def Let_def ends_def [symmetric] masked_def [symmetric]
      j_def [symmetric] by simp
  have "snd (fs ! i) = masked ! j" using i(2,3) nth by (simp add: ends_def)
  moreover have "Max (set masked) = masked ! j"
  proof (rule Max_eqI)
    show "finite (set masked)" by simp
    show "masked ! j \<in> set masked" by (rule mem)
    fix y assume "y \<in> set masked"
    then show "y \<le> masked ! j" using jmin by fastforce
  qed
  ultimately show ?thesis using ls masked_eq by simp
qed

lemma right_stripe_None:
  "starts_after x fs = [] \<Longrightarrow> right_stripe x fs = None"
  by (simp add: right_stripe_def starts_after_def)

lemma sorted_hd_Min: "sorted (v # vs :: int list) \<Longrightarrow> Min (set (v # vs)) = v"
  by (intro Min_eqI) auto

lemma right_stripe_nearest:
  assumes srt: "sorted (map fst fs)" and ne: "starts_after x fs \<noteq> []"
  shows "\<exists>r. right_stripe x fs = Some r \<and> fst r = Min (set (starts_after x fs))"
proof -
  obtain v vs where vs: "starts_after x fs = v # vs" using ne by (cases "starts_after x fs") auto
  have "sorted (starts_after x fs)" unfolding starts_after_def using srt by (rule sorted_wrt_filter)
  then have mn: "Min (set (starts_after x fs)) = v" unfolding vs by (rule sorted_hd_Min)
  have "v \<in> set (starts_after x fs)" unfolding vs by simp
  then have "v \<in> fst ` set fs" by (auto simp: starts_after_def)
  then have "filter (\<lambda>f. fst f = v) fs \<noteq> []" by (auto simp: filter_empty_conv)
  then obtain r rs where r: "filter (\<lambda>f. fst f = v) fs = r # rs"
    by (cases "filter (\<lambda>f. fst f = v) fs") auto
  then have "r \<in> set (filter (\<lambda>f. fst f = v) fs)" by simp
  then have fr: "fst r = v" by simp
  have f1: "filter (\<lambda>s. s - snd x \<ge> 0) (map fst fs) = v # vs"
    using vs by (simp add: starts_after_def)
  have "right_stripe x fs = Some r"
    unfolding right_stripe_def f1 list.case r ..
  then show ?thesis using fr mn by simp
qed

lemma left_metric_nearest:
  assumes "sorted (map snd fs)" "method \<noteq> ''insulation''"
  shows "left_side_metric x (left_stripe x fs) method = nearest_left_metric x fs"
proof (cases "ends_before x fs = []")
  case True
  then show ?thesis
    by (simp add: left_stripe_None left_side_metric_def nearest_left_metric_def)
next
  case False
  from left_stripe_nearest [OF assms(1) False]
  obtain l where "left_stripe x fs = Some l" "snd l = Max (set (ends_before x fs))" by blast
  then show ?thesis using False assms(2)
    by (simp add: left_side_metric_def nearest_left_metric_def)
qed

lemma right_metric_nearest:
  assumes "sorted (map fst fs)" "method \<noteq> ''insulation''"
  shows "right_side_metric x (right_stripe x fs) method = nearest_right_metric x fs"
proof (cases "starts_after x fs = []")
  case True
  then show ?thesis
    by (simp add: right_stripe_None right_side_metric_def nearest_right_metric_def)
next
  case False
  from right_stripe_nearest [OF assms(1) False]
  obtain r where "right_stripe x fs = Some r" "fst r = Min (set (starts_after x fs))" by blast
  then show ?thesis using False assms(2)
    by (simp add: right_side_metric_def nearest_right_metric_def)
qed

lemma left_gap_positive:
  assumes wf: "\<forall>f \<in> set fs. fst f \<le> snd f" and m: "method \<noteq> ''insulation''"
    and nn: "\<not> whether_tad_noisy x fs method resolution k"
    and ne: "ends_before x fs \<noteq> []"
  shows "0 < fst x - Max (set (ends_before x fs))"
proof -
  have "Max (set (ends_before x fs)) \<in> set (ends_before x fs)"
    using ne by (intro Max_in) simp_all
  then obtain f where f: "f \<in> set fs" "snd f = Max (set (ends_before x fs))" "snd f \<le> fst x"
    by (auto simp: ends_before_def)
  have "\<not> stripe_test x (expanded64 f method resolution k)"
    using nn f(1) whether_tad_noisy_ex by blast
  then have "\<not> stripe_test x f" using m by (simp add: expanded64_def)
  then have "\<not> (fst x \<le> snd f \<and> fst x \<ge> fst f)" unfolding stripe_test_def by blast
  moreover have "fst f \<le> snd f" using wf f(1) by blast
  ultimately have "snd f < fst x" using f(3) by linarith
  then show ?thesis unfolding f(2) by simp
qed

lemma right_gap_positive:
  assumes wf: "\<forall>f \<in> set fs. fst f \<le> snd f" and m: "method \<noteq> ''insulation''"
    and nn: "\<not> whether_tad_noisy x fs method resolution k"
    and ne: "starts_after x fs \<noteq> []"
  shows "0 < Min (set (starts_after x fs)) - snd x"
proof -
  have "Min (set (starts_after x fs)) \<in> set (starts_after x fs)"
    using ne by (intro Min_in) simp_all
  then obtain f where f: "f \<in> set fs" "fst f = Min (set (starts_after x fs))" "snd x \<le> fst f"
    by (auto simp: starts_after_def)
  have "\<not> stripe_test x (expanded64 f method resolution k)"
    using nn f(1) whether_tad_noisy_ex by blast
  then have "\<not> stripe_test x f" using m by (simp add: expanded64_def)
  then have "\<not> (snd x \<le> snd f \<and> snd x \<ge> fst f)" unfolding stripe_test_def by blast
  moreover have "fst f \<le> snd f" using wf f(1) by blast
  ultimately have "snd x < fst f" using f(3) by linarith
  then show ?thesis unfolding f(2) by simp
qed

text \<open>
  Claim C8. For a segment of positive length that is not fully noisy, over stripes ordered
  by coordinate with \<open>bgn \<le> end\<close>: for the insulation method \<^verbatim>\<open>calc_noisy_metric\<close> returns
  the constant 1; for a density-score method it returns the minimum of the left and the
  right metric, each \<open>log(gap)^2 * log(length)\<close> against the nearest stripe ending at or
  before the segment's start, respectively starting at or after its end, and \<open>1e10\<close> for a
  missing side. Both gaps are positive, so the logarithms are those of positive integers.
\<close>

theorem calc_noisy_metric_value:
  assumes "sorted (map fst fs)" and "sorted (map snd fs)" and "\<forall>f \<in> set fs. fst f \<le> snd f"
    and "fst x < snd x" and "\<not> whether_tad_noisy x fs method resolution k"
  shows "if method = ''insulation'' then calc_noisy_metric x fs method resolution k = 1
         else calc_noisy_metric x fs method resolution k
                = min (nearest_left_metric x fs) (nearest_right_metric x fs)
              \<and> (ends_before x fs \<noteq> [] \<longrightarrow> 0 < fst x - Max (set (ends_before x fs)))
              \<and> (starts_after x fs \<noteq> [] \<longrightarrow> 0 < Min (set (starts_after x fs)) - snd x)"
proof (cases "method = ''insulation''")
  case True
  then show ?thesis using assms(5) by (simp add: calc_noisy_metric_def)
next
  case False
  have "calc_noisy_metric x fs method resolution k
          = min (nearest_left_metric x fs) (nearest_right_metric x fs)"
    using assms(5) False left_metric_nearest [OF assms(2) False]
      right_metric_nearest [OF assms(1) False]
    by (simp add: calc_noisy_metric_def)
  then show ?thesis
    using False left_gap_positive [OF assms(3) False assms(5)]
      right_gap_positive [OF assms(3) False assms(5)]
    by simp
qed

theorem calc_noisy_metric_value_witness:
  "sorted (map fst ([(1, 2), (11, 12)] :: stripe list))
   \<and> sorted (map snd ([(1, 2), (11, 12)] :: stripe list))
   \<and> list_all (\<lambda>f. fst f \<le> snd f) ([(1, 2), (11, 12)] :: stripe list)
   \<and> fst ((5, 8) :: segment) < snd ((5, 8) :: segment)
   \<and> \<not> whether_tad_noisy (5, 8) [(1, 2), (11, 12)] ''armatus'' 0 0
   \<and> calc_noisy_metric (5, 8) [(1, 2), (11, 12)] ''armatus'' 0 0 = (ln 3)\<^sup>2 * ln 3
   \<and> calc_noisy_metric (5, 8) [(11, 12)] ''armatus'' 0 0 = min 10000000000 ((ln 3)\<^sup>2 * ln 3)
   \<and> calc_noisy_metric (5, 8) [(1, 2), (11, 12)] ''insulation'' 1 1 = 1"
  using calc_noisy_metric_value [of "[(1, 2), (11, 12)]" "(5, 8)" "''armatus''" 0 0]
    calc_noisy_metric_value [of "[(11, 12)]" "(5, 8)" "''armatus''" 0 0]
    calc_noisy_metric_value [of "[(1, 2), (11, 12)]" "(5, 8)" "''insulation''" 1 1]
  by (simp add: nearest_left_metric_def nearest_right_metric_def ends_before_def
      starts_after_def wrap64_def)

section \<open>Properties of the segmentation generator\<close>

lemma select_above_map:
  "select_above segments (map f segments) thresh = filter (\<lambda>x. f x > thresh) segments"
  unfolding select_above_def by (induction segments) simp_all

lemma produce_tads_segmentation_with_cases:
  assumes "method = ''modularity'' \<or> method = ''armatus''"
  shows "produce_tads_segmentation_with metric optimal n_bins fs method mis mts =
     (case noise_thresh (positive_metrics metric (candidates optimal mis mts)) fs n_bins of
        Some thresh \<Rightarrow> Some (filter (\<lambda>x. metric x > thresh) (candidates optimal mis mts))
      | None \<Rightarrow> Some (candidates optimal mis mts))"
  using assms unfolding candidates_def positive_metrics_def
  by (simp add: produce_tads_segmentation_with_def Let_def select_above_map split: option.splits)

lemma produce_tads_segmentation_with_subset:
  assumes "produce_tads_segmentation_with metric optimal n_bins fs method mis mts = Some segs"
  shows "set segs \<subseteq> set (candidates optimal mis mts)"
proof -
  have m: "method = ''modularity'' \<or> method = ''armatus''"
    using assms by (auto simp: produce_tads_segmentation_with_def split: if_splits)
  show ?thesis
    using assms unfolding produce_tads_segmentation_with_cases [OF m]
    by (auto split: option.splits)
qed

lemma segment_length_exact: "in_int64 (snd s - fst s) \<Longrightarrow> segment_length s = snd s - fst s"
  by (simp add: segment_length_def wrap64_id)

lemma np_index_mem: "np_index xs j = Some a \<Longrightarrow> a \<in> set xs"
  by (auto simp: np_index_def Let_def split: if_splits)

lemma py_slice_to_subset: "set (py_slice_to xs j) \<subseteq> set xs"
  by (auto simp: py_slice_to_def dest: in_set_takeD)

lemma noise_thresh_positive:
  assumes "noise_thresh hist_arr fs n_bins = Some t" and "\<forall>m \<in> set hist_arr. 0 < m"
  shows "0 < t"
proof -
  from assms(1) obtain a b j where a: "np_index (py_slice_to hist_arr j) (- 1) = Some a"
    and b: "np_index hist_arr j = Some b" and t: "t = fl64 (a + b) / 2"
    by (auto simp: noise_thresh_def Let_def split: if_splits option.splits)
  have "a \<in> set hist_arr" using np_index_mem [OF a] py_slice_to_subset by fastforce
  then have "0 < a" using assms(2) by blast
  moreover have "b \<in> set hist_arr" using np_index_mem [OF b] .
  then have "0 < b" using assms(2) by blast
  ultimately have "0 < a + b" by simp
  then have "0 < fl64 (a + b)" by (rule fl64_pos)
  then show ?thesis unfolding t by simp
qed

text \<open>The threshold is the rounded midpoint of two neighbours in the sorted metrics.\<close>

lemma np_index_last:
  assumes "np_index ys (- 1) = Some a"
  shows "ys \<noteq> [] \<and> a = ys ! (length ys - 1)"
proof -
  have "- int (length ys) \<le> - 1" and a: "a = ys ! nat (int (length ys) + - 1)"
    using assms by (auto simp: np_index_def Let_def split: if_splits)
  then have "ys \<noteq> []" by auto
  moreover have "nat (int (length ys) + - 1) = length ys - 1" by simp
  ultimately show ?thesis using a by simp
qed

lemma noise_thresh_midpoint:
  assumes "noise_thresh hist_arr fs n_bins = Some t"
  shows "\<exists>i. 0 < i \<and> i < length hist_arr
             \<and> t = fl64 (hist_arr ! (i - 1) + hist_arr ! i) / 2"
proof -
  from assms obtain a b j where a: "np_index (py_slice_to hist_arr j) (- 1) = Some a"
    and b: "np_index hist_arr j = Some b" and t: "t = fl64 (a + b) / 2"
    by (auto simp: noise_thresh_def Let_def split: if_splits option.splits)
  define n where "n = length hist_arr"
  from np_index_last [OF a]
  have ne: "py_slice_to hist_arr j \<noteq> []"
    and a': "a = py_slice_to hist_arr j ! (length (py_slice_to hist_arr j) - 1)" by simp_all
  show ?thesis
  proof (cases "0 \<le> j")
    case True
    then have jn: "j < int n" and b': "b = hist_arr ! nat j"
      using b by (auto simp: np_index_def Let_def n_def split: if_splits)
    have sl: "py_slice_to hist_arr j = take (nat j) hist_arr" using True by (simp add: py_slice_to_def)
    have j0: "0 < nat j" using ne unfolding sl by (cases "nat j") auto
    have len: "length (take (nat j) hist_arr) = nat j" using jn by (simp add: n_def)
    have "a = hist_arr ! (nat j - 1)" unfolding a' sl len using j0 by simp
    then show ?thesis using j0 jn b' t unfolding n_def by (intro exI [of _ "nat j"]) simp
  next
    case False
    then have jn: "- int n \<le> j" and b': "b = hist_arr ! nat (int n + j)"
      using b by (auto simp: np_index_def Let_def n_def split: if_splits)
    define m where "m = n - nat (- j)"
    have mm: "nat (int n + j) = m" using False jn by (simp add: m_def)
    have sl: "py_slice_to hist_arr j = take m hist_arr"
      using False by (simp add: py_slice_to_def m_def n_def)
    have m0: "0 < m" using ne unfolding sl by (cases m) auto
    have mn: "m < n" using False m0 by (simp add: m_def)
    have len: "length (take m hist_arr) = m" using mn by (simp add: n_def)
    have b'': "b = hist_arr ! m" using b' mm by simp
    have "a = hist_arr ! (m - 1)" unfolding a' sl len using m0 by simp
    then show ?thesis using m0 mn b'' t unfolding n_def by (intro exI [of _ m]) simp
  qed
qed

lemma metric_below_sentinel:
  assumes "1 \<le> a" "a \<le> 1000" "1 \<le> b" "b \<le> 1000"
  shows "(ln (a::real))\<^sup>2 * ln b \<le> 10000000000"
proof -
  have a0: "0 \<le> ln a" and b0: "0 \<le> ln b" using assms by simp_all
  have a1: "ln a \<le> 999" using ln_le_minus_one [of a] assms by linarith
  have b1: "ln b \<le> 999" using ln_le_minus_one [of b] assms by linarith
  have "(ln a)\<^sup>2 \<le> 999\<^sup>2" using a0 a1 by (intro power_mono) simp_all
  then have "(ln a)\<^sup>2 * ln b \<le> 999\<^sup>2 * 999"
    using b0 b1 by (intro mult_mono) simp_all
  then show ?thesis by simp
qed

lemma metric_52_60: "calc_noisy_metric (52, 60) [(0, 49)] ''armatus'' 0 0 = (ln 3)\<^sup>2 * ln 8"
  using metric_below_sentinel [of 3 8]
  by (simp add: calc_noisy_metric_def left_stripe_def right_stripe_def left_side_metric_def
      right_side_metric_def)

lemma metric_60_68: "calc_noisy_metric (60, 68) [(0, 49)] ''armatus'' 0 0 = (ln 11)\<^sup>2 * ln 8"
  using metric_below_sentinel [of 11 8]
  by (simp add: calc_noisy_metric_def left_stripe_def right_stripe_def left_side_metric_def
      right_side_metric_def)

lemma metrics_ordered:
  "0 < (ln 3)\<^sup>2 * ln (8::real)" "(ln 3)\<^sup>2 * ln (8::real) < (ln 11)\<^sup>2 * ln 8"
proof -
  have l3: "0 < ln (3::real)" and l8: "0 < ln (8::real)" by simp_all
  then show "0 < (ln 3)\<^sup>2 * ln (8::real)" by simp
  have "ln (3::real) < ln 11" by simp
  then have "(ln (3::real))\<^sup>2 < (ln 11)\<^sup>2" using l3 by (intro power_strict_mono) simp_all
  then show "(ln 3)\<^sup>2 * ln (8::real) < (ln 11)\<^sup>2 * ln 8" using l8 by simp
qed

text \<open>
  The two metrics of the example are far enough apart for the rounding of their sum not to
  matter: the rounded midpoint lies strictly between them.
\<close>

lemma metrics_apart: "5 * ((ln 3)\<^sup>2 * ln 8) < 3 * ((ln 11)\<^sup>2 * ln (8::real))"
proof -
  have l3: "0 < ln (3::real)" and l8: "0 < ln (8::real)" by simp_all
  have p3: "ln ((3::real) ^ 3) = real 3 * ln 3" by (rule ln_realpow)
  have p11: "ln ((11::real) ^ 2) = real 2 * ln 11" by (rule ln_realpow)
  have "ln ((3::real) ^ 3) \<le> ln (11 ^ 2)" by simp
  then have "3 * ln 3 \<le> 2 * ln (11::real)" unfolding p3 p11 by simp
  then have h: "3 / 2 * ln 3 \<le> ln (11::real)" by simp
  have nn: "0 \<le> 3 / 2 * ln (3::real)" using l3 by simp
  have sq: "(3 / 2 * ln (3::real))\<^sup>2 = 9 / 4 * (ln 3)\<^sup>2"
    by (simp add: power_mult_distrib power2_eq_square)
  have "(3 / 2 * ln (3::real))\<^sup>2 \<le> (ln 11)\<^sup>2" using h nn by (rule power_mono)
  then have "9 / 4 * (ln (3::real))\<^sup>2 \<le> (ln 11)\<^sup>2" unfolding sq .
  moreover have "0 < (ln (3::real))\<^sup>2" using l3 by simp
  ultimately have "5 * (ln (3::real))\<^sup>2 < 3 * (ln 11)\<^sup>2" by linarith
  then have "(5 * (ln (3::real))\<^sup>2) * ln 8 < (3 * (ln 11)\<^sup>2) * ln 8"
    using l8 by (simp only: mult_less_cancel_right_pos)
  then show ?thesis by (simp only: mult.assoc)
qed

lemma rounded_midpoint_between:
  assumes "0 < a" and "5 * a < 3 * b"
  shows "a < fl64 (a + b) / 2 \<and> fl64 (a + b) / 2 < b"
proof -
  define c where "c = fl64 (a + b)"
  have "0 < a + b" using assms by linarith
  from fl64_near [OF this]
  have "3 / 4 * (a + b) \<le> c" "c \<le> 5 / 4 * (a + b)" unfolding c_def by simp_all
  then have "a < c / 2" "c / 2 < b" using assms by (simp_all add: field_simps)
  then show ?thesis unfolding c_def by simp
qed

lemma thresh_example: "noise_thresh [(ln 3)\<^sup>2 * ln 8, (ln 11)\<^sup>2 * ln 8] [(0, 49)] 100
   = Some (fl64 ((ln 3)\<^sup>2 * ln 8 + (ln 11)\<^sup>2 * ln 8) / 2)"
  by (simp add: noise_thresh_def py_int_def py_slice_to_def np_index_def Let_def wrap64_def
      fl64_int fl64_half)

lemma positive_metrics_example:
  "positive_metrics (\<lambda>x. calc_noisy_metric x [(0, 49)] ''armatus'' 0 0) [(52, 60), (60, 68)]
   = [(ln 3)\<^sup>2 * ln 8, (ln 11)\<^sup>2 * ln 8]"
  using metrics_ordered by (simp add: positive_metrics_def metric_52_60 metric_60_68)

lemma candidates_example:
  "candidates [(0, 50), (50, 52), (52, 60), (60, 68), (68, 100)] 3 30 = [(52, 60), (60, 68)]"
  by (simp add: candidates_def size_mask_def segment_length_def wrap64_def)

text \<open>
  The index \<open>int(len(hist_arr) * noise_freq)\<close> is computed in float64, and rounding can
  move it: with 49 positive metrics and a noise frequency of \<open>1 / 49\<close> the product is
  \<open>1 - 2^-53\<close> and the index is 0, where exact arithmetic gives 1. The slice
  \<open>hist_arr[:0]\<close> is empty, the threshold computation raises, and every candidate is
  returned.
\<close>

lemma fl64_49th: "fl64 (1 / 49) = 5882252574524729 / 288230376151711744"
  using fl64_eval [of "- 6" "1 / 49"]
  by (simp add: powr_minus round_half_even_def Let_def field_simps)

lemma fl64_49_times:
  "fl64 (288230376151711721 / 288230376151711744) = 9007199254740991 / 9007199254740992"
  using fl64_eval [of "- 1" "288230376151711721 / 288230376151711744"]
  by (simp add: powr_minus round_half_even_def Let_def field_simps)

lemma noise_thresh_rounded_index:
  assumes "length hist_arr = 49"
  shows "noise_thresh hist_arr [(0, 0)] 49 = None"
    and "py_int (real (length hist_arr) * (real_of_int (0 - 0 + 1) / real 49)) = 1"
proof -
  have j: "py_int (fl64 (fl64 (real (length hist_arr))
                         * fl64 (fl64 (real_of_int (wrap64 1)) / fl64 (real 49)))) = 0"
    unfolding assms
    by (simp add: wrap64_def fl64_int fl64_49th fl64_49_times py_int_def)
  show "noise_thresh hist_arr [(0, 0)] 49 = None"
    using j by (simp add: noise_thresh_def Let_def py_slice_to_def np_index_def)
  show "py_int (real (length hist_arr) * (real_of_int (0 - 0 + 1) / real 49)) = 1"
    unfolding assms by (simp add: py_int_def)
qed

lemma produce_boundaries_segmentation_filter:
  "produce_boundaries_segmentation boundaries_coords fs method resolution k =
     filter (\<lambda>x. calc_noisy_metric x fs method resolution k > 0) boundaries_coords"
  by (simp add: produce_boundaries_segmentation_def Let_def select_above_map)

text \<open>
  Claim C1, as stated, fails: \<^verbatim>\<open>produce_tads_segmentation\<close> does compute the
  percentile/noise-frequency threshold. Below, the first half of a 100-bin matrix is one
  noisy stripe, two segments of the partition pass the size mask with positive metrics, and
  the one with the smaller metric is dropped, although its metric exceeds 0. The noise
  frequency is \<open>50 / 100\<close> and the index \<open>int(2 * 0.5)\<close> is 1, both exact in float64.
\<close>

theorem produce_tads_segmentation_zero_threshold_counterexample:
  "produce_tads_segmentation [(0, 50), (50, 52), (52, 60), (60, 68), (68, 100)] 100 [(0, 49)]
       ''armatus'' 3 30
   \<noteq> Some (filter (\<lambda>x. calc_noisy_metric x [(0, 49)] ''armatus'' 0 0 > 0)
              (candidates [(0, 50), (50, 52), (52, 60), (60, 68), (68, 100)] 3 30))"
proof -
  have m: "''armatus'' = ''modularity'' \<or> ''armatus'' = ''armatus''" by simp
  note b = rounded_midpoint_between [OF metrics_ordered(1) metrics_apart]
  show ?thesis
    unfolding produce_tads_segmentation_def produce_tads_segmentation_with_cases [OF m]
      candidates_example positive_metrics_example thresh_example
    using metrics_ordered b by (simp add: metric_52_60 metric_60_68)
qed

text \<open>
  Claim C1, amended. For a density-score method, whenever the percentile/noise-frequency
  threshold can be computed from the sorted positive metrics, it is positive, it is the
  float64 midpoint of two neighbouring entries of the sorted positive metrics, and
  \<^verbatim>\<open>produce_tads_segmentation\<close> keeps exactly the candidates passing the size mask whose
  noise metric exceeds it, whatever float64 values the metric takes. The fixed threshold 0
  is the one of \<^verbatim>\<open>produce_boundaries_segmentation\<close>, which keeps exactly the boundaries of
  positive metric.
\<close>

theorem produce_tads_segmentation_threshold:
  assumes "method = ''modularity'' \<or> method = ''armatus''"
    and "noise_thresh (positive_metrics metric (candidates optimal mis mts)) fs n_bins
         = Some thresh"
  shows "produce_tads_segmentation_with metric optimal n_bins fs method mis mts =
           Some (filter (\<lambda>x. metric x > thresh) (candidates optimal mis mts))
         \<and> 0 < thresh
         \<and> (\<exists>i. 0 < i \<and> i < length (positive_metrics metric (candidates optimal mis mts))
                \<and> thresh = fl64 (positive_metrics metric (candidates optimal mis mts) ! (i - 1)
                                  + positive_metrics metric (candidates optimal mis mts) ! i) / 2)
         \<and> produce_boundaries_segmentation boundaries_coords fs' method' resolution k =
             filter (\<lambda>x. calc_noisy_metric x fs' method' resolution k > 0) boundaries_coords"
proof -
  have "\<forall>m \<in> set (positive_metrics metric (candidates optimal mis mts)). 0 < m"
    by (simp add: positive_metrics_def)
  then have pos: "0 < thresh" using assms(2) noise_thresh_positive by blast
  have sel: "produce_tads_segmentation_with metric optimal n_bins fs method mis mts =
           Some (filter (\<lambda>x. metric x > thresh) (candidates optimal mis mts))"
    using assms(2) by (simp add: produce_tads_segmentation_with_cases [OF assms(1)])
  show ?thesis
    using pos sel noise_thresh_midpoint [OF assms(2)]
    by (simp only: produce_boundaries_segmentation_filter simp_thms)
qed

theorem produce_tads_segmentation_threshold_witness:
  "(''armatus'' = ''modularity'' \<or> ''armatus'' = ''armatus'')
   \<and> noise_thresh (positive_metrics (\<lambda>x. calc_noisy_metric x [(0, 49)] ''armatus'' 0 0)
         (candidates [(0, 50), (50, 52), (52, 60), (60, 68), (68, 100)] 3 30))
         [(0, 49)] 100
       = Some (fl64 ((ln 3)\<^sup>2 * ln 8 + (ln 11)\<^sup>2 * ln 8) / 2)
   \<and> produce_tads_segmentation [(0, 50), (50, 52), (52, 60), (60, 68), (68, 100)] 100 [(0, 49)]
         ''armatus'' 3 30 = Some [(60, 68)]
   \<and> produce_boundaries_segmentation [(0, 5), (20, 30)] [(0, 10)] ''insulation'' 1 1
       = [(20, 30)]"
proof -
  have t: "noise_thresh (positive_metrics (\<lambda>x. calc_noisy_metric x [(0, 49)] ''armatus'' 0 0)
         (candidates [(0, 50), (50, 52), (52, 60), (60, 68), (68, 100)] 3 30))
         [(0, 49)] 100
       = Some (fl64 ((ln 3)\<^sup>2 * ln 8 + (ln 11)\<^sup>2 * ln 8) / 2)"
    by (simp only: candidates_example positive_metrics_example thresh_example)
  have m: "''armatus'' = ''modularity'' \<or> ''armatus'' = ''armatus''" by simp
  note th = produce_tads_segmentation_threshold [OF m t,
      of "[(0, 5), (20, 30)]" "[(0, 10)]" "''insulation''" 1 1]
  note b = rounded_midpoint_between [OF metrics_ordered(1) metrics_apart]
  have p: "produce_tads_segmentation [(0, 50), (50, 52), (52, 60), (60, 68), (68, 100)] 100 [(0, 49)]
         ''armatus'' 3 30 = Some [(60, 68)]"
    unfolding produce_tads_segmentation_def
    using th b by (simp add: candidates_example metric_52_60 metric_60_68)
  have b: "produce_boundaries_segmentation [(0, 5), (20, 30)] [(0, 10)] ''insulation'' 1 1
       = [(20, 30)]"
    using th by (simp add: calc_noisy_metric_def wrap64_def)
  show ?thesis using m t p b by blast
qed

text \<open>
  Claim C6, evaluated where it fails. The only candidate that passes the size mask contains
  the stripe \<open>(10, 11)\<close>, so its metric is \<open>-1\<close>; there is no positive metric, the threshold
  computation raises, and the \<^verbatim>\<open>except\<close> branch returns the candidate.
\<close>

theorem produce_tads_segmentation_returns_noisy:
  "produce_tads_segmentation [(0, 3), (3, 17), (17, 20)] 20 [(10, 11)] ''armatus'' 3 1000
     = Some [(3, 17)]
   \<and> whether_tad_noisy (3, 17) [(10, 11)] ''armatus'' 0 0
   \<and> calc_noisy_metric (3, 17) [(10, 11)] ''armatus'' 0 0 = - 1"
  by (simp add: produce_tads_segmentation_def produce_tads_segmentation_with_def size_mask_def
      segment_length_def wrap64_def calc_noisy_metric_def
      noise_thresh_def py_int_def py_slice_to_def np_index_def select_above_def Let_def)

text \<open>
  Claim C9. Every segment \<^verbatim>\<open>produce_tads_segmentation\<close> returns, whatever the values of
  the noise metric, has a length strictly greater than \<open>max_intertad_size\<close> and strictly
  smaller than \<open>max_tad_size\<close>: the length the source computes, which is \<open>end - start\<close>
  whenever this difference fits 64 bits. The four statistics \<^verbatim>\<open>calc_mean_tad_size\<close>
  returns are those of the rows \<open>retained_tads\<close>, and every such row is a TAD between two
  consecutive boundaries, holds no stripe, and has a length strictly between the two
  bounds as float64 (which are the bounds themselves below \<open>2^53\<close>).
\<close>

theorem size_bounds_exclusive:
  "(\<forall>segs. produce_tads_segmentation_with metric optimal n_bins fs method mis mts = Some segs \<longrightarrow>
       (\<forall>s \<in> set segs. mis < segment_length s \<and> segment_length s < mts
            \<and> (in_int64 (snd s - fst s) \<longrightarrow> mis < snd s - fst s \<and> snd s - fst s < mts)))
   \<and> calc_mean_tad_size boundaries fs' mis' mts' resolution ! 0
       = PyFloat (mean_or_zero (map tad_length (retained_tads boundaries fs' mis' mts' resolution)))
   \<and> calc_mean_tad_size boundaries fs' mis' mts' resolution ! 1
       = PyFloat (sum_list (map tad_length (retained_tads boundaries fs' mis' mts' resolution)))
   \<and> calc_mean_tad_size boundaries fs' mis' mts' resolution ! 2
       = PyFloat (case with_last_right
                    (map left_insulation (retained_tads boundaries fs' mis' mts' resolution))
                    (map right_insulation (retained_tads boundaries fs' mis' mts' resolution)) of
                  Some l \<Rightarrow> mean_or_zero l | None \<Rightarrow> 0)
   \<and> calc_mean_tad_size boundaries fs' mis' mts' resolution ! 3
       = PyFloat (case with_last_right
                    (map left_boundary_strength (retained_tads boundaries fs' mis' mts' resolution))
                    (map right_boundary_strength (retained_tads boundaries fs' mis' mts' resolution)) of
                  Some l \<Rightarrow> mean_or_zero l | None \<Rightarrow> 0)
   \<and> (\<forall>t \<in> set (retained_tads boundaries fs' mis' mts' resolution).
         t \<in> set (select_tads boundaries resolution) \<and> is_normal fs' t
         \<and> fl64 (real_of_int mis') < tad_length t \<and> tad_length t < fl64 (real_of_int mts')
         \<and> (\<bar>mis'\<bar> < 2 ^ 53 \<and> \<bar>mts'\<bar> < 2 ^ 53 \<longrightarrow>
              real_of_int mis' < tad_length t \<and> tad_length t < real_of_int mts'))"
proof (intro conjI allI impI ballI)
  fix segs s
  assume "produce_tads_segmentation_with metric optimal n_bins fs method mis mts = Some segs"
    "s \<in> set segs"
  then have "s \<in> set (candidates optimal mis mts)"
    using produce_tads_segmentation_with_subset by blast
  then have "size_mask mis mts s" by (simp add: candidates_def)
  then show l: "mis < segment_length s" "segment_length s < mts"
    by (simp_all add: size_mask_def Let_def)
  assume "in_int64 (snd s - fst s)"
  then show "mis < snd s - fst s" "snd s - fst s < mts"
    using l by (simp_all add: segment_length_exact)
next
  show "calc_mean_tad_size boundaries fs' mis' mts' resolution ! 0
       = PyFloat (mean_or_zero (map tad_length (retained_tads boundaries fs' mis' mts' resolution)))"
    by (simp add: calc_mean_tad_size_def Let_def)
  show "calc_mean_tad_size boundaries fs' mis' mts' resolution ! 1
       = PyFloat (sum_list (map tad_length (retained_tads boundaries fs' mis' mts' resolution)))"
    by (simp add: calc_mean_tad_size_def Let_def)
  show "calc_mean_tad_size boundaries fs' mis' mts' resolution ! 2
       = PyFloat (case with_last_right
                    (map left_insulation (retained_tads boundaries fs' mis' mts' resolution))
                    (map right_insulation (retained_tads boundaries fs' mis' mts' resolution)) of
                  Some l \<Rightarrow> mean_or_zero l | None \<Rightarrow> 0)"
    by (simp add: calc_mean_tad_size_def Let_def numeral_2_eq_2)
  show "calc_mean_tad_size boundaries fs' mis' mts' resolution ! 3
       = PyFloat (case with_last_right
                    (map left_boundary_strength (retained_tads boundaries fs' mis' mts' resolution))
                    (map right_boundary_strength (retained_tads boundaries fs' mis' mts' resolution)) of
                  Some l \<Rightarrow> mean_or_zero l | None \<Rightarrow> 0)"
    by (simp add: calc_mean_tad_size_def Let_def numeral_3_eq_3)
next
  fix t
  assume t: "t \<in> set (retained_tads boundaries fs' mis' mts' resolution)"
  then show "t \<in> set (select_tads boundaries resolution)" "is_normal fs' t"
    by (simp_all add: retained_tads_def)
  have "length_mask mis' mts' resolution t" using t by (simp add: retained_tads_def)
  then show b: "fl64 (real_of_int mis') < tad_length t" "tad_length t < fl64 (real_of_int mts')"
    by (simp_all add: length_mask_def)
  assume "\<bar>mis'\<bar> < 2 ^ 53 \<and> \<bar>mts'\<bar> < 2 ^ 53"
  then show "real_of_int mis' < tad_length t" "tad_length t < real_of_int mts'"
    using b by (simp_all add: fl64_of_int)
qed

theorem size_bounds_exclusive_witness:
  "produce_tads_segmentation_with (\<lambda>x. calc_noisy_metric x [] ''modularity'' 0 0)
       [(0, 2), (2, 28), (28, 30)] 30 [] ''modularity'' 3 1000
     = Some [(2, 28)]
   \<and> segment_length (2, 28) = 26 \<and> in_int64 (28 - 2)
   \<and> map tad_length (select_tads
        [\<lparr>b_start = 0, b_end = 10, b_insulation = 0, b_strength = 1\<rparr>,
         \<lparr>b_start = 100, b_end = 110, b_insulation = 0, b_strength = 1\<rparr>,
         \<lparr>b_start = 200, b_end = 210, b_insulation = 0, b_strength = 1\<rparr>,
         \<lparr>b_start = 20000, b_end = 20010, b_insulation = 0, b_strength = 1\<rparr>] 10)
       = [9, 9, 1979]
   \<and> map tad_length (retained_tads
        [\<lparr>b_start = 0, b_end = 10, b_insulation = 0, b_strength = 1\<rparr>,
         \<lparr>b_start = 100, b_end = 110, b_insulation = 0, b_strength = 1\<rparr>,
         \<lparr>b_start = 200, b_end = 210, b_insulation = 0, b_strength = 1\<rparr>,
         \<lparr>b_start = 20000, b_end = 20010, b_insulation = 0, b_strength = 1\<rparr>] [] 3 1000 10)
       = [9, 9]
   \<and> \<bar>3 :: int\<bar> < 2 ^ 53 \<and> \<bar>1000 :: int\<bar> < 2 ^ 53
   \<and> calc_mean_tad_size
        [\<lparr>b_start = 0, b_end = 10, b_insulation = 0, b_strength = 1\<rparr>,
         \<lparr>b_start = 100, b_end = 110, b_insulation = 0, b_strength = 1\<rparr>,
         \<lparr>b_start = 200, b_end = 210, b_insulation = 0, b_strength = 1\<rparr>,
         \<lparr>b_start = 20000, b_end = 20010, b_insulation = 0, b_strength = 1\<rparr>] [] 3 1000 10 ! 0
       = PyFloat 9
   \<and> calc_mean_tad_size
        [\<lparr>b_start = 0, b_end = 10, b_insulation = 0, b_strength = 1\<rparr>,
         \<lparr>b_start = 100, b_end = 110, b_insulation = 0, b_strength = 1\<rparr>,
         \<lparr>b_start = 200, b_end = 210, b_insulation = 0, b_strength = 1\<rparr>,
         \<lparr>b_start = 20000, b_end = 20010, b_insulation = 0, b_strength = 1\<rparr>] [] 3 1000 10 ! 1
       = PyFloat 18"
proof -
  define bs where "bs =
        [\<lparr>b_start = 0, b_end = 10, b_insulation = 0, b_strength = 1\<rparr>,
         \<lparr>b_start = 100, b_end = 110, b_insulation = 0, b_strength = 1\<rparr>,
         \<lparr>b_start = 200, b_end = 210, b_insulation = 0, b_strength = 1\<rparr>,
         \<lparr>b_start = 20000, b_end = 20010, b_insulation = 0, b_strength = (1::real)\<rparr>]"
  note th = size_bounds_exclusive [of "\<lambda>x. calc_noisy_metric x [] ''modularity'' 0 0"
      "[(0, 2), (2, 28), (28, 30)]" 30 "[]" "''modularity''" 3 1000 bs "[]" 3 1000 10]
  have sel: "map tad_length (select_tads bs 10) = [9, 9, 1979]"
    by (simp add: bs_def select_tads_def make_tad_def wrap64_def fl64_int)
  have ret: "map tad_length (retained_tads bs [] 3 1000 10) = [9, 9]"
    by (simp add: bs_def retained_tads_def select_tads_def make_tad_def length_mask_def
        is_normal_def wrap64_def fl64_int)
  have st: "calc_mean_tad_size bs [] 3 1000 10 ! 0 = PyFloat 9"
    "calc_mean_tad_size bs [] 3 1000 10 ! 1 = PyFloat 18"
    using th unfolding ret by (simp_all add: mean_or_zero_def fl64_int)
  have seg: "produce_tads_segmentation_with (\<lambda>x. calc_noisy_metric x [] ''modularity'' 0 0)
       [(0, 2), (2, 28), (28, 30)] 30 [] ''modularity'' 3 1000 = Some [(2, 28)]"
    by (simp add: produce_tads_segmentation_with_def size_mask_def segment_length_def wrap64_def
        calc_noisy_metric_def left_stripe_def right_stripe_def left_side_metric_def
        right_side_metric_def noise_thresh_def py_int_def py_slice_to_def np_index_def
        select_above_def Let_def)
  have "segment_length (2, 28) = 26" "in_int64 (28 - 2)"
    by (simp_all add: segment_length_def wrap64_def in_int64_def)
  then show ?thesis using seg sel ret st unfolding bs_def by simp
qed

section \<open>Properties of the insulation statistics\<close>

lemma unpack3_wrong_length: "length t \<noteq> 3 \<Longrightarrow> unpack3 t = Inl ValueError"
  by (auto simp: unpack3_def split: list.splits)

text \<open>
  Claim C5. \<^verbatim>\<open>calc_mean_tad_size\<close> returns a tuple of six components, and
  \<^verbatim>\<open>search_opt_window\<close> binds three names to it: the statistics step fails with the
  unpacking error, whatever the boundaries, before anything is written into \<open>stats\<close>.
\<close>

theorem search_opt_window_unpack_error:
  "length (calc_mean_tad_size boundaries fs mis mts resolution) = 6
   \<and> search_opt_window_stats boundaries boundaries_coords fs mis mts grid_0 resolution stats
       = Inl ValueError"
proof -
  have six: "length (calc_mean_tad_size boundaries fs mis mts resolution) = 6"
    by (simp add: calc_mean_tad_size_def Let_def)
  then have "length (calc_mean_tad_size boundaries fs mis mts resolution) \<noteq> 3" by simp
  then have "unpack3 (calc_mean_tad_size boundaries fs mis mts resolution) = Inl ValueError"
    by (rule unpack3_wrong_length)
  then have "search_opt_window_stats boundaries boundaries_coords fs mis mts grid_0 resolution
               stats = Inl ValueError"
    by (simp add: search_opt_window_stats_def)
  with six show ?thesis by simp
qed

section \<open>Properties of the noise mask builder\<close>

lemma clear_slice_length [simp]: "length (clear_slice g lo hi) = length g"
  by (simp add: clear_slice_def)

lemma clear_slice_nth:
  "i < length g \<Longrightarrow> clear_slice g lo hi ! i = (g ! i \<and> \<not> (lo \<le> int i \<and> int i < hi))"
  by (simp add: clear_slice_def)

lemma fold_clear_length:
  "length (fold (\<lambda>s g. clear_slice g (lo s) (hi s)) fs g) = length g"
  by (induction fs arbitrary: g) simp_all

lemma fold_clear_nth:
  "i < length g \<Longrightarrow>
     fold (\<lambda>s g. clear_slice g (lo s) (hi s)) fs g ! i
       = (g ! i \<and> \<not> (\<exists>s \<in> set fs. lo s \<le> int i \<and> int i < hi s))"
proof (induction fs arbitrary: g)
  case Nil
  show ?case by simp
next
  case (Cons s fs)
  have "i < length (clear_slice g (lo s) (hi s))" using Cons.prems by simp
  from Cons.IH [OF this] show ?case
    using Cons.prems by (auto simp: clear_slice_nth)
qed

lemma py_int_exact_quotient:
  assumes "r \<noteq> 0"
  shows "py_int (real_of_int (a * r) / real_of_int r) = a"
proof -
  have "real_of_int (a * r) / real_of_int r = real_of_int a" using assms by simp
  then show ?thesis by (simp add: py_int_def)
qed

text \<open>
  The mask agrees with the stripes that are returned: a bin is marked bad exactly when it
  lies in one of them.
\<close>

lemma get_noisy_stripes_mask:
  assumes "get_noisy_stripes mtx method resolution = Inr (fs, good_bins)"
    and "method = ''insulation'' \<longrightarrow> 0 < resolution"
    and "i < length mtx"
  shows "length good_bins = length mtx
         \<and> (good_bins ! i \<longleftrightarrow> \<not> (\<exists>s \<in> set fs. bin_in_stripe method resolution i s))"
proof -
  obtain filt where filt: "noisy_runs (zero_rows mtx) = Inr filt"
    using assms(1) by (cases "noisy_runs (zero_rows mtx)") (simp_all add: get_noisy_stripes_def)
  show ?thesis
  proof (cases "method = ''insulation''")
    case False
    have fs: "fs = filt"
      and g: "good_bins = fold (\<lambda>s g. clear_slice g (fst s) (snd s + 1)) filt
                            (replicate (length mtx) True)"
      using assms(1) False by (auto simp: get_noisy_stripes_def filt Let_def)
    have "length good_bins = length mtx" unfolding g by (simp add: fold_clear_length)
    moreover have "good_bins ! i = (\<not> (\<exists>s \<in> set filt. fst s \<le> int i \<and> int i < snd s + 1))"
      unfolding g using assms(3) by (subst fold_clear_nth) simp_all
    ultimately show ?thesis using False unfolding fs bin_in_stripe_def by auto
  next
    case True
    have r: "0 < resolution" using True assms(2) by simp
    define conv where "conv = (\<lambda>elem :: stripe. (fst elem * resolution, snd elem * resolution + resolution))"
    have fs: "fs = map conv filt"
      and g: "good_bins = fold (\<lambda>s g. clear_slice g
                                 (py_int (real_of_int (fst s) / real_of_int resolution))
                                 (py_int (real_of_int (snd s) / real_of_int resolution)))
                            (map conv filt) (replicate (length mtx) True)"
      using assms(1) True r by (auto simp: get_noisy_stripes_def filt Let_def conv_def)
    have "length good_bins = length mtx" unfolding g by (simp add: fold_clear_length)
    moreover have "good_bins ! i =
        (\<not> (\<exists>s \<in> set (map conv filt).
               py_int (real_of_int (fst s) / real_of_int resolution) \<le> int i
               \<and> int i < py_int (real_of_int (snd s) / real_of_int resolution)))"
      unfolding g using assms(3) by (subst fold_clear_nth) simp_all
    moreover have "(py_int (real_of_int (fst s) / real_of_int resolution) \<le> int i
               \<and> int i < py_int (real_of_int (snd s) / real_of_int resolution))
             = bin_in_stripe method resolution i s" if "s \<in> set (map conv filt)" for s
    proof -
      from that have "s \<in> conv ` set filt" by simp
      then obtain e where s: "s = conv e" by (rule imageE)
      have "snd e * resolution + resolution = (snd e + 1) * resolution"
        by (simp add: algebra_simps)
      then have q: "py_int (real_of_int (fst (conv e)) / real_of_int resolution) = fst e"
        "py_int (real_of_int (snd (conv e)) / real_of_int resolution) = snd e + 1"
        using r py_int_exact_quotient [of resolution "fst e"]
          py_int_exact_quotient [of resolution "snd e + 1"]
        by (simp_all add: conv_def)
      have a: "fst e \<le> int i \<longleftrightarrow> fst e * resolution \<le> int i * resolution"
        using r by simp
      have "int i < snd e + 1 \<longleftrightarrow> int i * resolution < (snd e + 1) * resolution"
        using r by simp
      then have b: "int i < snd e + 1 \<longleftrightarrow> int i * resolution < snd e * resolution + resolution"
        by (simp add: algebra_simps)
      have "bin_in_stripe method resolution i (conv e)
            = (fst e * resolution \<le> int i * resolution
               \<and> int i * resolution < snd e * resolution + resolution)"
        using True by (simp add: bin_in_stripe_def conv_def)
      then show ?thesis unfolding s q using a b by simp
    qed
    ultimately show ?thesis unfolding fs by blast
  qed
qed

lemma noisy_runs_single: "noisy_runs [b] = Inr [(b, b)]"
  by (simp add: noisy_runs_def append_last_def)

text \<open>
  Claim C2, evaluated where it fails. In the matrix below the rows 2, 3 and 4 sum to zero
  and form one maximal run. The loop stops one index early: the stripe is \<open>(2, 3)\<close> and bin
  4 stays marked good.
\<close>

theorem get_noisy_stripes_misses_last_zero_row:
  "zero_rows [[0, 1, 0, 0, 0, 1], [1, 0, 0, 0, 0, 1], [0, 0, 0, 0, 0, 0],
              [0, 0, 0, 0, 0, 0], [0, 0, 0, 0, 0, 0], [1, 1, 0, 0, 0, 0]] = [2, 3, 4]
   \<and> get_noisy_stripes [[0, 1, 0, 0, 0, 1], [1, 0, 0, 0, 0, 1], [0, 0, 0, 0, 0, 0],
              [0, 0, 0, 0, 0, 0], [0, 0, 0, 0, 0, 0], [1, 1, 0, 0, 0, 0]] ''armatus'' 1
       = Inr ([(2, 3)], [True, True, False, False, True, True])"
  by (simp add: get_noisy_stripes_def noisy_runs_def zero_rows_def append_last_def
      clear_slice_def upt_rec)

text \<open>
  Claim C10, evaluated where it fails. The clipping maps the diagonal and the smallest
  positive entry of the contact matrix to 0, so a transformed matrix has a zero diagonal
  and at least one more zero in some row. The symmetric contact matrix
  \<open>[[0, 1, 2], [1, 0, 4], [2, 4, 0]]\<close> is transformed into the first matrix below
  (\<open>mn = 1\<close>, \<open>mx = 4\<close>): no row sums to zero, \<open>v[0]\<close> raises IndexError, and no empty
  set of stripes is returned. The contact matrix \<open>[[0, 1, 2], [1, 0, 1], [2, 1, 0]]\<close> is
  transformed into the second one, whose only zero row is bin 1: it gives the stripe
  \<open>(1, 1)\<close>, which the width filter keeps.
\<close>

theorem get_noisy_stripes_no_zero_row:
  "zero_rows [[0, 0, ln 2], [0, 0, ln 4], [ln 2, ln 4, 0]] = []
   \<and> get_noisy_stripes [[0, 0, ln 2], [0, 0, ln 4], [ln 2, ln 4, 0]] ''armatus'' 1
       = Inl IndexError
   \<and> get_noisy_stripes [[0, 0, ln 2], [0, 0, 0], [ln 2, 0, 0]] ''armatus'' 1
       = Inr ([(1, 1)], [True, False, True])"
proof -
  have "0 < ln (2::real)" "0 < ln (4::real)" by simp_all
  then have "ln 2 + ln (4::real) \<noteq> 0" by linarith
  then show ?thesis
    by (simp add: get_noisy_stripes_def noisy_runs_def zero_rows_def append_last_def
        clear_slice_def upt_rec)
qed

section \<open>Properties of the boundary narrower\<close>

lemma grid_index_Inr:
  assumes "grid_index grid b = Inr i"
  shows "i < length grid \<and> grid ! i = b"
proof -
  have "filter (\<lambda>i. grid ! i = b) [0..<length grid] = [i]"
    using assms by (auto simp: grid_index_def split: list.splits)
  then have "i \<in> set (filter (\<lambda>i. grid ! i = b) [0..<length grid])" by simp
  then show ?thesis by simp
qed

lemma strict_sorted_gap:
  assumes "sorted_wrt (<) (grid :: int list)" "j < length grid" "i + 2 \<le> j"
  shows "grid ! i + 2 \<le> grid ! j"
proof -
  have "grid ! i < grid ! Suc i"
    using sorted_wrt_nth_less [OF assms(1), of i "Suc i"] assms(2,3) by simp
  moreover have "grid ! Suc i < grid ! j"
    using sorted_wrt_nth_less [OF assms(1), of "Suc i" j] assms(2,3) by simp
  ultimately show ?thesis by linarith
qed

lemma index_gap_value_gap:
  assumes srt: "sorted_wrt (<) (grid :: int list)"
    and i: "i < length grid" and j: "j < length grid"
    and d: "1 < nat \<bar>int i - int j\<bar>"
  shows "2 \<le> \<bar>grid ! i - grid ! j\<bar>"
proof (cases "i \<le> j")
  case True
  then have "i + 2 \<le> j" using d by linarith
  from strict_sorted_gap [OF srt j this] show ?thesis by linarith
next
  case False
  then have "j + 2 \<le> i" using d by linarith
  from strict_sorted_gap [OF srt i this] show ?thesis by linarith
qed

lemma midpoint_inside:
  fixes a b m :: int
  assumes "m = (a + b) div 2 \<or> m = (a + b + 1) div 2" and "2 \<le> \<bar>m - b\<bar>"
  shows "\<bar>a - m\<bar> < \<bar>a - b\<bar> \<and> \<bar>m - b\<bar> < \<bar>a - b\<bar>"
proof -
  define q where "q = (a + b) div 2"
  define r where "r = (a + b) mod 2"
  have ab: "a + b = 2 * q + r" and r: "0 \<le> r" "r \<le> 1"
    unfolding q_def r_def by simp_all
  have "(a + b + 1) div 2 = (2 * q + (r + 1)) div 2" using ab by (simp add: add.assoc)
  also have "\<dots> = q + (r + 1) div 2" by simp
  also have "(r + 1) div 2 = r" using r by (cases "r = 0") auto
  finally have "(a + b + 1) div 2 = q + r" .
  then have m: "m = q \<or> m = q + r" using assms(1) q_def by simp
  have r01: "r = 0 \<or> r = 1" using r by linarith
  show ?thesis using m r01 ab assms(2) by (elim disjE; simp; linarith)
qed

lemma ab_move_fields:
  "\<not> is_begin (ab_move nseg rnd s)
   \<and> (if nseg (bound_1 s) \<noteq> (if is_begin s then nseg (bound_1 s) else len_segments_prev s)
       then bound_2 (ab_move nseg rnd s) = bound_1 s
            \<and> bound_1_prev (ab_move nseg rnd s) = bound_1_prev s
            \<and> bound_1 (ab_move nseg rnd s) = rnd (bound_1 s + bound_1_prev s)
       else bound_2 (ab_move nseg rnd s) = bound_2 s
            \<and> bound_1_prev (ab_move nseg rnd s) = bound_1 s
            \<and> bound_1 (ab_move nseg rnd s) = rnd (bound_1 s + bound_2 s))"
  by (simp add: ab_move_def Let_def)

lemma ab_step_Inr:
  assumes "ab_step nseg rnd grid s = Inr s'"
  shows "\<exists>i j. grid_index grid (bound_1 s') = Inr i \<and> grid_index grid (bound_2 s') = Inr j
             \<and> delta s' = nat \<bar>int i - int j\<bar>
             \<and> s' = (ab_move nseg rnd s)\<lparr> delta := nat \<bar>int i - int j\<bar> \<rparr>"
proof -
  define m where "m = ab_move nseg rnd s"
  have st: "ab_step nseg rnd grid s =
      (case grid_index grid (bound_1 m) of
           Inl e \<Rightarrow> Inl e
         | Inr i \<Rightarrow> (case grid_index grid (bound_2 m) of
                       Inl e \<Rightarrow> Inl e
                     | Inr j \<Rightarrow> Inr (m\<lparr> delta := nat \<bar>int i - int j\<bar> \<rparr>)))"
    by (simp only: ab_step_def m_def Let_def)
  obtain i where i: "grid_index grid (bound_1 m) = Inr i"
    using assms unfolding st by (cases "grid_index grid (bound_1 m)") simp_all
  obtain j where j: "grid_index grid (bound_2 m) = Inr j"
    using assms unfolding st i by (cases "grid_index grid (bound_2 m)") simp_all
  have s': "s' = m\<lparr> delta := nat \<bar>int i - int j\<bar> \<rparr>"
    using assms unfolding st i j by simp
  have "bound_1 s' = bound_1 m" "bound_2 s' = bound_2 m" "delta s' = nat \<bar>int i - int j\<bar>"
    unfolding s' by simp_all
  then show ?thesis using i j s' unfolding m_def by metis
qed

lemma ab_step_decreases:
  assumes srt: "sorted_wrt (<) grid" and rh: "rounds_half rnd"
    and inv: "ab_inv rnd grid s" and d: "1 < delta s"
    and st: "ab_step nseg rnd grid s = Inr s'"
  shows "ab_inv rnd grid s' \<and> bracket s' < bracket s"
proof -
  from inv obtain i j where ij: "grid_index grid (bound_1 s) = Inr i"
      "grid_index grid (bound_2 s) = Inr j" "delta s = nat \<bar>int i - int j\<bar>"
    and b1: "bound_1 s = rnd (bound_1_prev s + bound_2 s)" and nb: "\<not> is_begin s"
    unfolding ab_inv_def by blast
  have gi: "i < length grid" "grid ! i = bound_1 s" using grid_index_Inr [OF ij(1)] by simp_all
  have gj: "j < length grid" "grid ! j = bound_2 s" using grid_index_Inr [OF ij(2)] by simp_all
  have "1 < nat \<bar>int i - int j\<bar>" using d ij(3) by simp
  from index_gap_value_gap [OF srt gi(1) gj(1) this]
  have gap: "2 \<le> \<bar>bound_1 s - bound_2 s\<bar>" unfolding gi(2) gj(2) .
  have "rnd (bound_1_prev s + bound_2 s) = (bound_1_prev s + bound_2 s) div 2
        \<or> rnd (bound_1_prev s + bound_2 s) = (bound_1_prev s + bound_2 s + 1) div 2"
    using rh unfolding rounds_half_def by (rule spec)
  then have "bound_1 s = (bound_1_prev s + bound_2 s) div 2
        \<or> bound_1 s = (bound_1_prev s + bound_2 s + 1) div 2"
    unfolding b1 [symmetric] .
  from midpoint_inside [OF this gap]
  have ins: "\<bar>bound_1_prev s - bound_1 s\<bar> < \<bar>bound_1_prev s - bound_2 s\<bar>"
      "\<bar>bound_1 s - bound_2 s\<bar> < \<bar>bound_1_prev s - bound_2 s\<bar>" by simp_all
  from ab_step_Inr [OF st] obtain i' j' where
    s': "grid_index grid (bound_1 s') = Inr i'" "grid_index grid (bound_2 s') = Inr j'"
      "delta s' = nat \<bar>int i' - int j'\<bar>"
    and eq: "s' = (ab_move nseg rnd s)\<lparr> delta := nat \<bar>int i' - int j'\<bar> \<rparr>"
    by blast
  have f: "bound_1 s' = bound_1 (ab_move nseg rnd s)" "bound_2 s' = bound_2 (ab_move nseg rnd s)"
    "bound_1_prev s' = bound_1_prev (ab_move nseg rnd s)" "is_begin s' = is_begin (ab_move nseg rnd s)"
    unfolding eq by simp_all
  note mf = ab_move_fields [of nseg rnd s]
  have nb': "\<not> is_begin s'" using mf f(4) by simp
  show ?thesis
  proof (cases "nseg (bound_1 s) \<noteq> (if is_begin s then nseg (bound_1 s) else len_segments_prev s)")
    case True
    then have e: "bound_2 s' = bound_1 s" "bound_1_prev s' = bound_1_prev s"
      "bound_1 s' = rnd (bound_1 s + bound_1_prev s)" using mf f by simp_all
    have "bound_1 s' = rnd (bound_1_prev s' + bound_2 s')" using e by (simp add: add.commute)
    then have "ab_inv rnd grid s'" unfolding ab_inv_def using s' nb' by blast
    moreover have "bracket s' < bracket s" unfolding bracket_def e using ins(1) by linarith
    ultimately show ?thesis by simp
  next
    case False
    then have e: "bound_2 s' = bound_2 s" "bound_1_prev s' = bound_1 s"
      "bound_1 s' = rnd (bound_1 s + bound_2 s)" using mf f by simp_all
    have "bound_1 s' = rnd (bound_1_prev s' + bound_2 s')" using e by simp
    then have "ab_inv rnd grid s'" unfolding ab_inv_def using s' nb' by blast
    moreover have "bracket s' < bracket s" unfolding bracket_def e using ins(2) by linarith
    ultimately show ?thesis by simp
  qed
qed

lemma ab_loop_terminates_inv:
  assumes srt: "sorted_wrt (<) grid" and rh: "rounds_half rnd"
  shows "ab_inv rnd grid s \<Longrightarrow> \<exists>r. ab_loop nseg rnd grid s = Some r"
proof (induction "bracket s" arbitrary: s rule: less_induct)
  case less
  show ?case
  proof (cases "1 < delta s")
    case False
    then show ?thesis by (subst ab_loop.simps) simp
  next
    case True
    show ?thesis
    proof (cases "ab_step nseg rnd grid s")
      case (Inl e)
      then show ?thesis using True by (subst ab_loop.simps) simp
    next
      case (Inr s')
      from ab_step_decreases [OF srt rh less.prems True Inr]
      have "ab_inv rnd grid s'" "bracket s' < bracket s" by simp_all
      from less.hyps [OF this(2) this(1)] obtain r where "ab_loop nseg rnd grid s' = Some r" ..
      then show ?thesis using True Inr by (subst ab_loop.simps) simp
    qed
  qed
qed

lemma ab_first_step_inv:
  assumes "is_begin s0" and "ab_step nseg rnd grid s0 = Inr s1"
  shows "ab_inv rnd grid s1"
proof -
  from ab_step_Inr [OF assms(2)] obtain i j where
    s': "grid_index grid (bound_1 s1) = Inr i" "grid_index grid (bound_2 s1) = Inr j"
      "delta s1 = nat \<bar>int i - int j\<bar>"
    and eq: "s1 = (ab_move nseg rnd s0)\<lparr> delta := nat \<bar>int i - int j\<bar> \<rparr>"
    by blast
  have f: "bound_1 s1 = bound_1 (ab_move nseg rnd s0)" "bound_2 s1 = bound_2 (ab_move nseg rnd s0)"
    "bound_1_prev s1 = bound_1_prev (ab_move nseg rnd s0)"
    "is_begin s1 = is_begin (ab_move nseg rnd s0)"
    unfolding eq by simp_all
  note mf = ab_move_fields [of nseg rnd s0]
  have "\<not> is_begin s1" using mf f(4) by simp
  moreover have "bound_1 s1 = rnd (bound_1_prev s1 + bound_2 s1)"
    using mf f assms(1) by simp
  ultimately show ?thesis unfolding ab_inv_def using s' by blast
qed

lemma ab_loop_exit:
  assumes "ab_loop nseg rnd grid s = Some r"
  shows "case r of Inl e \<Rightarrow> True | Inr s' \<Rightarrow> delta s' \<le> 1"
proof (rule ab_loop.raw_induct
    [where P = "\<lambda>_ _ _ _ r. case r of Inl e \<Rightarrow> True | Inr s' \<Rightarrow> delta s' \<le> 1", OF _ assms])
  fix f :: "(int \<Rightarrow> nat) \<Rightarrow> (int \<Rightarrow> int) \<Rightarrow> int list \<Rightarrow> ab_state \<Rightarrow> (error + ab_state) option"
    and nseg rnd grid s r
  assume IH: "\<And>nseg rnd grid s r. f nseg rnd grid s = Some r \<Longrightarrow>
                 (case r of Inl e \<Rightarrow> True | Inr s' \<Rightarrow> delta s' \<le> 1)"
    and body: "(if 1 < delta s
                then case ab_step nseg rnd grid s of Inl e \<Rightarrow> Some (Inl e)
                     | Inr s' \<Rightarrow> f nseg rnd grid s'
                else Some (Inr s)) = Some r"
  show "case r of Inl e \<Rightarrow> True | Inr s' \<Rightarrow> delta s' \<le> 1"
  proof (cases "1 < delta s")
    case False
    then have "r = Inr s" using body by simp
    then show ?thesis using False by simp
  next
    case True
    show ?thesis
    proof (cases "ab_step nseg rnd grid s")
      case (Inl e)
      then have "r = Inl e" using body True by simp
      then show ?thesis by simp
    next
      case (Inr s')
      then have "f nseg rnd grid s' = Some r" using body True by simp
      then show ?thesis by (rule IH)
    qed
  qed
qed


lemma py_round_half_rounds: "rounds_half py_round_half"
  unfolding rounds_half_def py_round_half_def by presburger

lemma ab_init_begin:
  assumes "ab_init grid type = Inr s0"
  shows "is_begin s0"
proof -
  have "grid \<noteq> []" using assms by (auto simp: ab_init_def split: if_splits)
  then show ?thesis using assms by (auto simp: ab_init_def)
qed

lemma ab_loop_continue:
  "1 < delta s \<Longrightarrow> ab_step nseg rnd grid s = Inr s' \<Longrightarrow>
     ab_loop nseg rnd grid s = ab_loop nseg rnd grid s'"
  by (subst ab_loop.simps) simp

lemma ab_loop_stop: "\<not> 1 < delta s \<Longrightarrow> ab_loop nseg rnd grid s = Some (Inr s)"
  by (subst ab_loop.simps) simp

lemma grid6_index:
  "grid_index [0, 1, 2, 3, 4, 5] 0 = Inr 0" "grid_index [0, 1, 2, 3, 4, 5] 2 = Inr 2"
  "grid_index [0, 1, 2, 3, 4, 5] 3 = Inr 3" "grid_index [0, 1, 2, 3, 4, 5] 4 = Inr 4"
  by (simp_all add: grid_index_def upt_rec)

lemma py_round_half_values: "py_round_half 5 = 2" "py_round_half 7 = 4" "py_round_half 6 = 3"
  by (simp_all add: py_round_half_def)

lemma run6_step1:
  "ab_step (\<lambda>b. if b \<le> 2 then 7 else 3) py_round_half [0, 1, 2, 3, 4, 5]
      \<lparr> bound_1 = 5, bound_1_prev = 5, bound_2 = 0, len_segments_prev = 0,
        is_begin = True, delta = 6 \<rparr>
   = Inr \<lparr> bound_1 = 2, bound_1_prev = 5, bound_2 = 0, len_segments_prev = 3,
           is_begin = False, delta = 2 \<rparr>"
  by (simp add: ab_step_def ab_move_def py_round_half_values grid6_index)

lemma run6_step2:
  "ab_step (\<lambda>b. if b \<le> 2 then 7 else 3) py_round_half [0, 1, 2, 3, 4, 5]
      \<lparr> bound_1 = 2, bound_1_prev = 5, bound_2 = 0, len_segments_prev = 3,
        is_begin = False, delta = 2 \<rparr>
   = Inr \<lparr> bound_1 = 4, bound_1_prev = 5, bound_2 = 2, len_segments_prev = 3,
           is_begin = False, delta = 2 \<rparr>"
  by (simp add: ab_step_def ab_move_def py_round_half_values grid6_index)

lemma run6_step3:
  "ab_step (\<lambda>b. if b \<le> 2 then 7 else 3) py_round_half [0, 1, 2, 3, 4, 5]
      \<lparr> bound_1 = 4, bound_1_prev = 5, bound_2 = 2, len_segments_prev = 3,
        is_begin = False, delta = 2 \<rparr>
   = Inr \<lparr> bound_1 = 3, bound_1_prev = 4, bound_2 = 2, len_segments_prev = 3,
           is_begin = False, delta = 1 \<rparr>"
  by (simp add: ab_step_def ab_move_def py_round_half_values grid6_index)

lemma run6_init:
  "ab_init [0, 1, 2, 3, 4, 5] ''upper''
   = Inr \<lparr> bound_1 = 5, bound_1_prev = 5, bound_2 = 0, len_segments_prev = 0,
           is_begin = True, delta = 6 \<rparr>"
  by (simp add: ab_init_def)

lemma run6_loop:
  "ab_loop (\<lambda>b. if b \<le> 2 then 7 else 3) py_round_half [0, 1, 2, 3, 4, 5]
      \<lparr> bound_1 = 5, bound_1_prev = 5, bound_2 = 0, len_segments_prev = 0,
        is_begin = True, delta = 6 \<rparr>
   = Some (Inr \<lparr> bound_1 = 3, bound_1_prev = 4, bound_2 = 2, len_segments_prev = 3,
                 is_begin = False, delta = 1 \<rparr>)"
  by (simp add: ab_loop_continue [OF _ run6_step1] ab_loop_continue [OF _ run6_step2]
      ab_loop_continue [OF _ run6_step3] ab_loop_stop)

text \<open>
  Claim C4, as stated, fails: the index distance \<open>delta\<close> does not strictly decrease on
  every iteration. On the grid \<open>0, \<dots>, 5\<close> with \<open>start_step = 1\<close> and the upper bound, the
  first iteration leaves \<open>delta = 2\<close>; the segment count at 2 differs from the count at 5,
  the probe moves from 2 to \<open>round(3.5) = 4\<close>, and \<open>delta\<close> is 2 again.
\<close>

theorem adjust_boundaries_distance_counterexample:
  "ab_init [0, 1, 2, 3, 4, 5] ''upper''
     = Inr \<lparr> bound_1 = 5, bound_1_prev = 5, bound_2 = 0, len_segments_prev = 0,
             is_begin = True, delta = 6 \<rparr>
   \<and> ab_step (\<lambda>b. if b \<le> 2 then 7 else 3) py_round_half [0, 1, 2, 3, 4, 5]
        \<lparr> bound_1 = 5, bound_1_prev = 5, bound_2 = 0, len_segments_prev = 0,
          is_begin = True, delta = 6 \<rparr>
     = Inr \<lparr> bound_1 = 2, bound_1_prev = 5, bound_2 = 0, len_segments_prev = 3,
             is_begin = False, delta = 2 \<rparr>
   \<and> ab_step (\<lambda>b. if b \<le> 2 then 7 else 3) py_round_half [0, 1, 2, 3, 4, 5]
        \<lparr> bound_1 = 2, bound_1_prev = 5, bound_2 = 0, len_segments_prev = 3,
          is_begin = False, delta = 2 \<rparr>
     = Inr \<lparr> bound_1 = 4, bound_1_prev = 5, bound_2 = 2, len_segments_prev = 3,
             is_begin = False, delta = 2 \<rparr>
   \<and> \<not> delta \<lparr> bound_1 = 4, bound_1_prev = 5, bound_2 = 2, len_segments_prev = 3,
                 is_begin = False, delta = 2 \<rparr>
         < delta \<lparr> bound_1 = 2, bound_1_prev = 5, bound_2 = 0, len_segments_prev = 3,
                   is_begin = False, delta = 2 \<rparr>"
  by (simp only: run6_init run6_step1 run6_step2) simp

text \<open>
  Claim C4, amended. On a strictly increasing grid, and for a rounding that returns one of
  the two integers next to the half, the loop of \<^verbatim>\<open>adjust_boundaries\<close> terminates, whatever
  the segment counts are, and when it ends normally the index distance is at most 1. What
  strictly decreases on every iteration after the first is the bracket, the distance
  between \<open>bound_1_prev\<close> and \<open>bound_2\<close>; the first iteration establishes the invariant.
\<close>

theorem adjust_boundaries_terminates:
  assumes "sorted_wrt (<) grid" and "rounds_half rnd"
  shows "(\<exists>r. adjust_boundaries nseg rnd grid type = Some r)
     \<and> (\<forall>s0 s. ab_init grid type = Inr s0 \<and> ab_loop nseg rnd grid s0 = Some (Inr s)
            \<longrightarrow> delta s \<le> 1)
     \<and> (\<forall>s0 s1. ab_init grid type = Inr s0 \<and> ab_step nseg rnd grid s0 = Inr s1
            \<longrightarrow> ab_inv rnd grid s1)
     \<and> (\<forall>s s'. ab_inv rnd grid s \<and> 1 < delta s \<and> ab_step nseg rnd grid s = Inr s'
            \<longrightarrow> ab_inv rnd grid s' \<and> bracket s' < bracket s)"
proof (intro conjI allI impI)
  show "\<exists>r. adjust_boundaries nseg rnd grid type = Some r"
  proof (cases "ab_init grid type")
    case (Inl e)
    then show ?thesis by (simp add: adjust_boundaries_def)
  next
    case (Inr s0)
    have "\<exists>r. ab_loop nseg rnd grid s0 = Some r"
    proof (cases "1 < delta s0")
      case False
      then show ?thesis by (subst ab_loop.simps) simp
    next
      case True
      show ?thesis
      proof (cases "ab_step nseg rnd grid s0")
        case (Inl e)
        then show ?thesis using True by (subst ab_loop.simps) simp
      next
        case s1: (Inr s1)
        have "ab_inv rnd grid s1"
          using ab_first_step_inv [OF ab_init_begin [OF Inr] s1] .
        from ab_loop_terminates_inv [OF assms this]
        obtain r where "ab_loop nseg rnd grid s1 = Some r" ..
        then show ?thesis using True s1 by (subst ab_loop.simps) simp
      qed
    qed
    then show ?thesis using Inr by (auto simp: adjust_boundaries_def)
  qed
next
  fix s0 s
  assume "ab_init grid type = Inr s0 \<and> ab_loop nseg rnd grid s0 = Some (Inr s)"
  then have "ab_loop nseg rnd grid s0 = Some (Inr s)" by simp
  from ab_loop_exit [OF this] show "delta s \<le> 1" by simp
next
  fix s0 s1
  assume "ab_init grid type = Inr s0 \<and> ab_step nseg rnd grid s0 = Inr s1"
  then show "ab_inv rnd grid s1"
    using ab_first_step_inv ab_init_begin by blast
next
  fix s s'
  assume h: "ab_inv rnd grid s \<and> 1 < delta s \<and> ab_step nseg rnd grid s = Inr s'"
  then have "ab_inv rnd grid s' \<and> bracket s' < bracket s"
    using ab_step_decreases [OF assms] by blast
  then show "ab_inv rnd grid s'" "bracket s' < bracket s" by simp_all
qed

theorem adjust_boundaries_terminates_witness:
  "sorted_wrt (<) [0, 1, 2, 3, 4, 5 :: int] \<and> rounds_half py_round_half
   \<and> adjust_boundaries (\<lambda>b. if b \<le> 2 then 7 else 3) py_round_half [0, 1, 2, 3, 4, 5] ''upper''
       = Some (Inr 3)
   \<and> bracket \<lparr> bound_1 = 4, bound_1_prev = 5, bound_2 = 2, len_segments_prev = 3,
                is_begin = False, delta = 2 \<rparr>
       < bracket \<lparr> bound_1 = 2, bound_1_prev = 5, bound_2 = 0, len_segments_prev = 3,
                  is_begin = False, delta = 2 \<rparr>"
proof -
  have srt: "sorted_wrt (<) [0, 1, 2, 3, 4, 5 :: int]" by simp
  note th = adjust_boundaries_terminates [OF srt py_round_half_rounds,
      of "\<lambda>b. if b \<le> 2 then 7 else 3" "''upper''"]
  have v: "adjust_boundaries (\<lambda>b. if b \<le> 2 then 7 else 3) py_round_half [0, 1, 2, 3, 4, 5]
      ''upper'' = Some (Inr 3)"
    using th by (simp add: adjust_boundaries_def run6_init run6_loop)
  have "bracket \<lparr> bound_1 = 4, bound_1_prev = 5, bound_2 = 2, len_segments_prev = 3,
                is_begin = False, delta = 2 \<rparr>
       < bracket \<lparr> bound_1 = 2, bound_1_prev = 5, bound_2 = 0, len_segments_prev = 3,
                  is_begin = False, delta = 2 \<rparr>"
    by (simp add: bracket_def)
  then show ?thesis using srt py_round_half_rounds v by blast
qed

section \<open>Properties of the global optimum finder\<close>

lemma npfloat_Fin [simp]:
  "fsub (Fin a) t = Fin (fl64 (a - t))" "fmul (Fin a) (Fin b) = Fin (fl64 (a * b))"
  "fabs (Fin a) = Fin \<bar>a\<bar>" "fle (Fin a) (Fin b) = (a \<le> b)"
  by (simp_all add: fsub_def fmul_def fabs_def fle_def)

lemma np_mean_Fin: "xs \<noteq> [] \<Longrightarrow> np_mean xs = Fin (float_mean xs)"
  by (simp add: np_mean_def)

lemma seg_lengths_Nil [simp]: "seg_lengths segs = [] \<longleftrightarrow> segs = []"
  by (simp add: seg_lengths_def)

lemma register_all_append:
  "register_all d (xs @ ys) = register_all (register_all d xs) ys"
  by (simp add: register_all_def)

lemma register_all_simps [simp]:
  "register_all d [] = d" "register_all d [kv] = dict_set d (fst kv) (snd kv)"
  by (simp_all add: register_all_def)

text \<open>
  On segmentations within \<open>exact_sizes\<close> the source computes the exact lengths and their
  exact sum, and its mean is the float64 number nearest to the exact mean.
\<close>

lemma abs_sum_exact_lengths:
  "\<bar>sum_list (exact_lengths segs)\<bar> \<le> sum_list (map (\<lambda>s. \<bar>fst s\<bar> + \<bar>snd s\<bar>) segs)"
  unfolding exact_lengths_def by (induction segs) auto

lemma exact_sizes_member:
  assumes "exact_sizes segs" and "s \<in> set segs"
  shows "\<bar>snd s - fst s\<bar> < 2 ^ 53"
proof -
  have "\<bar>fst s\<bar> + \<bar>snd s\<bar> \<le> sum_list (map (\<lambda>s. \<bar>fst s\<bar> + \<bar>snd s\<bar>) segs)"
    using assms(2) by (intro member_le_sum_list) auto
  then show ?thesis using assms(1) unfolding exact_sizes_def by linarith
qed

lemma seg_lengths_exact:
  assumes "exact_sizes segs"
  shows "seg_lengths segs = exact_lengths segs"
  unfolding seg_lengths_def exact_lengths_def
  using exact_sizes_member [OF assms]
  by (auto simp: segment_length_def intro!: wrap64_id in_int64_abs)

lemma coverage_exact:
  assumes "exact_sizes segs"
  shows "coverage segs = sum_list (exact_lengths segs)"
proof -
  have "\<bar>sum_list (exact_lengths segs)\<bar> < 2 ^ 53"
    using abs_sum_exact_lengths [of segs] assms unfolding exact_sizes_def by linarith
  then show ?thesis
    unfolding coverage_def seg_lengths_exact [OF assms] by (intro wrap64_id in_int64_abs)
qed

lemma float_mean_exact:
  assumes "exact_sizes segs"
  shows "float_mean (seg_lengths segs) = fl64 (real_mean (exact_lengths segs))"
proof -
  have s: "\<bar>sum_list (exact_lengths segs)\<bar> < 2 ^ 53"
    using abs_sum_exact_lengths [of segs] assms unfolding exact_sizes_def by linarith
  have n: "int (length (exact_lengths segs)) < 2 ^ 53"
    using assms unfolding exact_sizes_def exact_lengths_def by simp
  show ?thesis
    unfolding float_mean_def real_mean_def seg_lengths_exact [OF assms]
    by (simp only: fl64_of_int [OF s] fl64_nat [OF n])
qed

lemma computed_profile_exact:
  assumes "\<forall>g \<in> set grid. exact_sizes (tads g)"
  shows "computed_profile tads grid = profile tads grid"
  unfolding computed_profile_def profile_def
  using assms by (simp add: float_mean_exact coverage_exact)

lemma scan_step_nonempty:
  assumes "tads g \<noteq> []" and "mean_tad_size_prev st = Fin mp"
  shows "scan_step tads t st g =
     \<lparr> gamma_prev = g, cov_prev = coverage (tads g),
       mean_tad_size_prev = Fin (float_mean (seg_lengths (tads g))),
       local_optimas =
         register_all (local_optimas st)
           (if product_nonpos (deviation t (float_mean (seg_lengths (tads g)))) (deviation t mp)
            then [if \<bar>deviation t (float_mean (seg_lengths (tads g)))\<bar> \<le> \<bar>deviation t mp\<bar>
                  then (g, coverage (tads g))
                  else (gamma_prev st, cov_prev st)]
            else []),
       mean_tad_sizes = mean_tad_sizes st @ [Fin (float_mean (seg_lengths (tads g)))],
       covs = covs st @ [coverage (tads g)] \<rparr>"
proof -
  have m: "np_mean (seg_lengths (tads g)) = Fin (float_mean (seg_lengths (tads g)))"
    using assms(1) by (simp add: np_mean_Fin)
  show ?thesis
    unfolding scan_step_def Let_def m assms(2)
    by (simp add: product_nonpos_def deviation_def)
qed

lemma scan_loop:
  assumes "\<forall>g \<in> set rest. tads g \<noteq> []" and "mean_tad_size_prev st = Fin mp"
  shows "local_optimas (foldl (scan_step tads t) st rest) =
           register_all (local_optimas st)
             (crossing_candidates product_nonpos t
                ((gamma_prev st, mp, cov_prev st) # computed_profile tads rest))
       \<and> mean_tad_sizes (foldl (scan_step tads t) st rest) =
           mean_tad_sizes st @ map (\<lambda>g. Fin (float_mean (seg_lengths (tads g)))) rest
       \<and> covs (foldl (scan_step tads t) st rest) =
           covs st @ map (\<lambda>g. coverage (tads g)) rest"
  using assms
proof (induction rest arbitrary: st mp)
  case Nil
  show ?case by (simp add: computed_profile_def)
next
  case (Cons g rest)
  have g: "tads g \<noteq> []" and rest: "\<forall>g \<in> set rest. tads g \<noteq> []" using Cons.prems(1) by simp_all
  note st1 = scan_step_nonempty [of tads g st mp t, OF g Cons.prems(2)]
  define st' where "st' = scan_step tads t st g"
  define m where "m = float_mean (seg_lengths (tads g))"
  have mp': "mean_tad_size_prev st' = Fin m"
    unfolding st'_def st1 m_def by simp
  have f: "gamma_prev st' = g" "cov_prev st' = coverage (tads g)"
    "local_optimas st' = register_all (local_optimas st)
           (if product_nonpos (deviation t m) (deviation t mp)
            then [if \<bar>deviation t m\<bar> \<le> \<bar>deviation t mp\<bar>
                  then (g, coverage (tads g))
                  else (gamma_prev st, cov_prev st)]
            else [])"
    "mean_tad_sizes st' = mean_tad_sizes st @ [Fin m]"
    "covs st' = covs st @ [coverage (tads g)]"
    unfolding st'_def st1 m_def by simp_all
  note IH = Cons.IH [OF rest mp']
  have fl: "foldl (scan_step tads t) st (g # rest) = foldl (scan_step tads t) st' rest"
    by (simp add: st'_def)
  have cc: "crossing_candidates product_nonpos t
              ((gamma_prev st, mp, cov_prev st) # computed_profile tads (g # rest)) =
            (if product_nonpos (deviation t m) (deviation t mp)
             then [if \<bar>deviation t m\<bar> \<le> \<bar>deviation t mp\<bar>
                   then (g, coverage (tads g))
                   else (gamma_prev st, cov_prev st)]
             else [])
            @ crossing_candidates product_nonpos t
                ((g, m, coverage (tads g)) # computed_profile tads rest)"
    by (simp add: computed_profile_def m_def)
  show ?case
    unfolding fl cc register_all_append
    using IH unfolding f by (simp add: m_def)
qed

lemma first_index_None: "v \<notin> set xs \<Longrightarrow> first_index xs v = None"
  by (induction xs) auto

lemma np_argmin_float_Fin:
  "np_argmin_float (map Fin xs) = np_argmin xs"
proof -
  have "NaN \<notin> set (map Fin xs)" by auto
  then have "first_index (map Fin xs) NaN = None" by (rule first_index_None)
  moreover have "map fin_val (map Fin xs) = xs" by (induction xs) simp_all
  ultimately show ?thesis by (simp add: np_argmin_float_def)
qed

lemma dict_set_nonempty: "dict_set d k v \<noteq> []"
  by (cases d) simp_all

lemma max_item_first_max:
  "max_item best rest =
     hd (filter (\<lambda>kv. snd kv = Max (snd ` set (best # rest))) (best # rest))"
proof (induction rest arbitrary: best)
  case Nil
  show ?case by simp
next
  case (Cons x rest)
  let ?M = "Max (snd ` set (best # x # rest))"
  show ?case
  proof (cases "snd x > snd best")
    case True
    have xle: "snd x \<le> Max (snd ` set (x # rest))" by (intro Max_ge) simp_all
    have "snd ` set (best # x # rest) = insert (snd best) (snd ` set (x # rest))" by auto
    then have Mm: "?M = max (snd best) (Max (snd ` set (x # rest)))"
      by (simp only: Max_insert [OF finite_imageI [OF finite_set]]) simp
    have le: "snd best \<le> Max (snd ` set (x # rest))" using True xle by linarith
    have M: "?M = Max (snd ` set (x # rest))"
      unfolding Mm by (rule max_absorb2 [OF le])
    have "snd best \<noteq> ?M" using True xle unfolding M by linarith
    then have "filter (\<lambda>kv. snd kv = ?M) (best # x # rest)
               = filter (\<lambda>kv. snd kv = Max (snd ` set (x # rest))) (x # rest)"
      unfolding M by simp
    then show ?thesis using True Cons.IH [of x] by simp
  next
    case False
    have ge: "snd best \<le> Max (snd ` set (best # rest))" by (intro Max_ge) simp_all
    have "snd ` set (best # x # rest) = insert (snd x) (snd ` set (best # rest))" by auto
    then have Mm: "?M = max (snd x) (Max (snd ` set (best # rest)))"
      by (simp only: Max_insert [OF finite_imageI [OF finite_set]]) simp
    have le: "snd x \<le> Max (snd ` set (best # rest))" using False ge by linarith
    have M: "?M = Max (snd ` set (best # rest))"
      unfolding Mm by (rule max_absorb2 [OF le])
    define P where "P = (\<lambda>kv :: 'a \<times> int. snd kv = ?M)"
    have "hd (filter P (best # x # rest)) = hd (filter P (best # rest))"
    proof (cases "P best")
      case True
      then show ?thesis by simp
    next
      case nb: False
      then have "snd best < ?M" using ge unfolding P_def M by linarith
      then have "\<not> P x" using False unfolding P_def by linarith
      then show ?thesis using nb by simp
    qed
    then have "hd (filter (\<lambda>kv. snd kv = ?M) (best # x # rest))
          = hd (filter (\<lambda>kv. snd kv = Max (snd ` set (best # rest))) (best # rest))"
      unfolding P_def M .
    moreover have "max_item best (x # rest) = max_item best rest" using False by simp
    ultimately show ?thesis using Cons.IH [of best] by (simp only:)
  qed
qed

lemma py_max_by_value_first_max:
  "d \<noteq> [] \<Longrightarrow>
     py_max_by_value d = Some (hd (filter (\<lambda>kv. snd kv = Max (snd ` set d)) d))"
  by (cases d) (simp_all only: py_max_by_value_def list.case max_item_first_max, simp)

text \<open>
  Claim C3, as stated, fails. With a target of 10 bins, the first grid point gives one
  segment of length 10 and the second gives two: both means are on target, so there is no
  sign change between them and the first point is the globally closest one. The claim
  registers the first point only and returns it; the source tests
  \<open>(a - t) * (b - t) <= 0\<close>, registers the second point too, and returns it for its larger
  coverage. All the numbers involved are small integers, which float64 represents.
\<close>

theorem find_global_optima_sign_change_counterexample:
  "find_global_optima (\<lambda>g. if g = 1 then [(0, 10)] else [(0, 10), (20, 30)]) [1, 2] 10 1
     = Inr 2
   \<and> max_coverage_parameter (registered sign_change (target_size 10 1)
        (profile (\<lambda>g. if g = 1 then [(0, 10)] else [(0, 10), (20, 30)]) [1, 2])) = Some 1"
  by (simp add: find_global_optima_def scan_step_def seg_lengths_def segment_length_def
      coverage_def wrap64_def np_mean_def float_mean_def target_size_def fl64_int
      np_argmin_float_def py_max_by_value_def Let_def
      max_coverage_parameter_def registered_def profile_def exact_lengths_def deviation_def
      sign_change_def closest_candidate_def real_mean_def register_all_def)

text \<open>
  The mean of an empty segmentation is \<open>nan\<close>, and \<open>np.argmin\<close> returns the position of the
  first \<open>nan\<close>: when the first grid point yields no segment and no crossing is found, the
  parameter returned is that grid point, not the one of closest mean.
\<close>

lemma find_global_optima_nan_fallback:
  "find_global_optima (\<lambda>g. if g = 1 then [] else if g = 2 then [(0, 8)] else [(0, 9)])
     [1, 2, 3] 10 1 = Inr 1"
  by (simp add: find_global_optima_def scan_step_def seg_lengths_def segment_length_def
      coverage_def wrap64_def np_mean_def float_mean_def target_size_def fl64_int fsub_def
      fmul_def fabs_def fle_def np_argmin_float_def py_max_by_value_def Let_def)

text \<open>
  Which of two means is closer to the target is decided by the rounded differences. With a
  target of 8 bins, three segments of total length 25 at the first grid point and three of
  total length 23 at the second, the exact means \<open>25 / 3\<close> and \<open>23 / 3\<close> are equally
  far from the target; their float64 values are not, the second one is closer, and it is
  the only candidate registered, although the first one has the larger coverage.
\<close>

lemma fl64_25_3: "fl64 (25 / 3) = 4691249611844267 / 562949953421312"
  using fl64_eval [of 3 "25 / 3"]
  by (simp add: powr_minus round_half_even_def Let_def field_simps)

lemma fl64_23_3: "fl64 (23 / 3) = 8631899285793451 / 1125899906842624"
  using fl64_eval [of 2 "23 / 3"]
  by (simp add: powr_minus round_half_even_def Let_def field_simps)

lemma fl64_dev_25_3:
  "fl64 (187649984473771 / 562949953421312) = 187649984473771 / 562949953421312"
  using fl64_eval [of "- 2" "187649984473771 / 562949953421312"]
  by (simp add: powr_minus round_half_even_def Let_def field_simps)

lemma fl64_dev_23_3:
  "fl64 (375299968947541 / 1125899906842624) = 375299968947541 / 1125899906842624"
  using fl64_eval [of "- 2" "375299968947541 / 1125899906842624"]
  by (simp add: powr_minus round_half_even_def Let_def field_simps)

lemma find_global_optima_rounded_tie:
  "find_global_optima (\<lambda>g. if g = 1 then [(0, 8), (10, 18), (20, 29)]
                           else [(0, 8), (10, 18), (20, 27)]) [1, 2] 8 1 = Inr 2"
  by (simp add: find_global_optima_def scan_step_def seg_lengths_def segment_length_def
      coverage_def wrap64_def np_mean_def float_mean_def target_size_def fl64_int
      fl64_25_3 fl64_23_3 fl64_dev_25_3 fl64_dev_23_3 fl64_nonpos_iff fl64_minus
      np_argmin_float_def py_max_by_value_def Let_def)

text \<open>
  Claim C3, amended. When every grid parameter yields at least one segment, on
  segmentations whose lengths and sums the source computes exactly, and for an expected
  size and a resolution below \<open>2^53\<close>,
  \<^verbatim>\<open>find_global_optima\<close> returns the registered candidate of maximal coverage, the first
  one in insertion order, where the candidates are: for each pair of consecutive grid
  parameters with \<open>(mean_size - target) * (mean_size_prev - target) \<le> 0\<close>, the one of the
  two whose mean size is closer to the target (the later one on a tie), with its coverage;
  then the first grid point whose mean size is globally closest to the target. The mean
  sizes, the target, the deviations, their product and the distances are the float64
  numbers the source computes, each the rounded exact result.
\<close>

theorem find_global_optima_selection:
  assumes "grid \<noteq> []" and "resolution \<noteq> 0"
    and "\<forall>g \<in> set grid. tads g \<noteq> [] \<and> exact_sizes (tads g)"
    and "\<bar>expected\<bar> < 2 ^ 53" and "\<bar>resolution\<bar> < 2 ^ 53"
  shows "\<exists>g. max_coverage_parameter
               (registered product_nonpos (target_size expected resolution)
                  (profile tads grid)) = Some g
           \<and> find_global_optima tads grid expected resolution = Inr g"
proof -
  obtain g0 rest where grid: "grid = g0 # rest" using assms(1) by (cases grid) auto
  define t where "t = target_size expected resolution"
  define st0 where "st0 =
     \<lparr> gamma_prev = g0, cov_prev = coverage (tads g0),
       mean_tad_size_prev = np_mean (seg_lengths (tads g0)),
       local_optimas = [],
       mean_tad_sizes = [np_mean (seg_lengths (tads g0))],
       covs = [coverage (tads g0)] \<rparr>"
  define st where "st = foldl (scan_step tads t) st0 rest"
  define prof where "prof = computed_profile tads grid"
  have g0: "tads g0 \<noteq> []" and rest: "\<forall>g \<in> set rest. tads g \<noteq> []"
    using assms(3) grid by simp_all
  have ex: "\<forall>g \<in> set grid. exact_sizes (tads g)" using assms(3) by simp
  have m0: "np_mean (seg_lengths (tads g0)) = Fin (float_mean (seg_lengths (tads g0)))"
    using g0 by (simp add: np_mean_Fin)
  have mp0: "mean_tad_size_prev st0 = Fin (float_mean (seg_lengths (tads g0)))"
    by (simp add: st0_def m0)
  have prof_eq: "prof = (g0, float_mean (seg_lengths (tads g0)), coverage (tads g0))
                    # computed_profile tads rest"
    by (simp add: prof_def grid computed_profile_def)
  from scan_loop [OF rest mp0, of t]
  have lo: "local_optimas st = register_all [] (crossing_candidates product_nonpos t prof)"
    and ms: "mean_tad_sizes st = map (\<lambda>g. Fin (float_mean (seg_lengths (tads g)))) grid"
    and cs: "covs st = map (\<lambda>g. coverage (tads g)) grid"
    unfolding st_def [symmetric] prof_eq by (simp_all add: st0_def m0 grid)
  define i where "i = np_argmin (map (\<lambda>p. \<bar>deviation t (fst (snd p))\<bar>) prof)"
  have "map (\<lambda>x. fabs (fsub x t)) (mean_tad_sizes st)
        = map Fin (map (\<lambda>p. \<bar>deviation t (fst (snd p))\<bar>) prof)"
    unfolding ms prof_def computed_profile_def by (simp add: deviation_def)
  then have am: "np_argmin_float (map (\<lambda>x. fabs (fsub x t)) (mean_tad_sizes st)) = i"
    unfolding i_def by (simp only: np_argmin_float_Fin)
  have "map (\<lambda>p. \<bar>deviation t (fst (snd p))\<bar>) prof \<noteq> []" by (simp add: prof_eq)
  from np_argmin_least [OF this] have ilt: "i < length grid"
    unfolding i_def [symmetric] by (simp add: prof_def computed_profile_def)
  have gi: "grid ! i = fst (prof ! i)" and ci: "covs st ! i = snd (snd (prof ! i))"
    using ilt unfolding cs prof_def computed_profile_def by simp_all
  define optimas where "optimas = dict_set (local_optimas st) (grid ! i) (covs st ! i)"
  have reg: "optimas = register_all [] (registered product_nonpos t prof)"
    unfolding optimas_def lo gi ci registered_def register_all_append closest_candidate_def
      Let_def i_def [symmetric]
    by simp
  have "optimas \<noteq> []" unfolding optimas_def by (rule dict_set_nonempty)
  then obtain kv where kv: "py_max_by_value optimas = Some kv"
    by (cases optimas) (simp_all add: py_max_by_value_def)
  have code: "find_global_optima tads grid expected resolution = Inr (fst kv)"
    using assms(2) kv
    unfolding find_global_optima_def grid list.case Let_def t_def [symmetric]
      st0_def [symmetric] st_def [symmetric]
      am [unfolded grid] optimas_def [unfolded grid, symmetric]
    by simp
  have "kv = hd (filter (\<lambda>kv. snd kv = Max (snd ` set optimas)) optimas)"
    using py_max_by_value_first_max [OF \<open>optimas \<noteq> []\<close>] kv by simp
  then have "max_coverage_parameter (registered product_nonpos t prof) = Some (fst kv)"
    using \<open>optimas \<noteq> []\<close>
    unfolding max_coverage_parameter_def reg [symmetric] Let_def by simp
  then show ?thesis
    using code unfolding t_def prof_def computed_profile_exact [OF ex] by blast
qed

theorem find_global_optima_selection_witness:
  "[1, 2, 3 :: real] \<noteq> [] \<and> (1 :: int) \<noteq> 0
   \<and> exact_sizes [(0, 14)] \<and> exact_sizes [(0, 8), (10, 18)]
   \<and> exact_sizes [(0, 6), (10, 16), (20, 26)]
   \<and> \<bar>10 :: int\<bar> < 2 ^ 53 \<and> \<bar>1 :: int\<bar> < 2 ^ 53
   \<and> max_coverage_parameter (registered product_nonpos (target_size 10 1)
        (profile (\<lambda>g. if g = 1 then [(0, 14)] else if g = 2 then [(0, 8), (10, 18)]
                       else [(0, 6), (10, 16), (20, 26)]) [1, 2, 3])) = Some 2
   \<and> find_global_optima (\<lambda>g. if g = 1 then [(0, 14)] else if g = 2 then [(0, 8), (10, 18)]
                           else [(0, 6), (10, 16), (20, 26)]) [1, 2, 3] 10 1 = Inr 2"
  using find_global_optima_selection [of "[1, 2, 3]" 1
      "\<lambda>g. if g = 1 then [(0, 14)] else if g = 2 then [(0, 8), (10, 18)]
                           else [(0, 6), (10, 16), (20, 26)]" 10]
  by (simp add: max_coverage_parameter_def registered_def profile_def product_nonpos_def
      closest_candidate_def real_mean_def exact_lengths_def deviation_def target_size_def
      exact_sizes_def fl64_int Let_def register_all_def)

end
